theory Spec2Isabelle
  imports
    Complex_Main
    "HOL-Library.Word"
    "HOL-Library.Char_ord"
    "HOL-Library.List_Lexorder"
    "HOL-Library.Product_Lexorder"
begin

chapter \<open>The model\<close>

section \<open>Job records and results (package job)\<close>

text \<open>
  \<open>Args\<close> is a \<open>[]interface{}\<close> filled by the JSON decoder, so its elements are
  \<open>nil\<close>, \<open>bool\<close>, \<open>float64\<close>, \<open>string\<close>, \<open>[]interface{}\<close> or
  \<open>map[string]interface{}\<close>.

  A \<open>float64\<close> among the arguments is printed, so the model keeps what printing
  depends on.  A finite value is its sign and its shortest decimal: the digits
  \<open>d\<^sub>1 \<dots> d\<^sub>n\<close> and the position \<open>dp\<close> of the decimal point, standing for
  \<open>0.d\<^sub>1 \<dots> d\<^sub>n \<times> 10 ^ dp\<close>, with the fewest digits that read back as the same
  \<open>float64\<close>.  They are the digits and the exponent that Go's \<open>strconv\<close> computes for
  the value in its shortest mode.  Zero has no digits and \<open>dp = 0\<close>, and keeps its
  sign, so \<open>0\<close> and \<open>-0\<close> are two values.  The infinities and NaN are values too; the
  JSON decoder does not produce them.

  The time stamps of a job are only copied, or set from a whole number of seconds:
  they are real numbers.  Go's \<open>int\<close> is a 64-bit two's complement word.
\<close>

datatype float64_value =
    Finite bool string int
  | Infinite bool
  | NaN

text \<open>
  The decimals that are the shortest decimal of some value: decimal digits without a
  zero at either end, or no digit at all for zero.  The exponents of a \<open>float64\<close> lie
  between \<open>-324\<close> and \<open>309\<close>, well inside the bounds taken here.
\<close>

definition decimal_digit :: "char \<Rightarrow> bool" where
  "decimal_digit ch \<longleftrightarrow> ch \<in> set ''0123456789''"

fun shortest_decimal :: "float64_value \<Rightarrow> bool" where
  "shortest_decimal (Finite neg ds dp) =
     (if ds = [] then dp = 0
      else list_all decimal_digit ds \<and> hd ds \<noteq> CHR ''0'' \<and> last ds \<noteq> CHR ''0''
           \<and> - 400 < dp \<and> dp < 400)"
| "shortest_decimal (Infinite neg) = False"
| "shortest_decimal NaN = False"

datatype json =
    JNull
  | JBool bool
  | JNumber float64_value
  | JString string
  | JArray "json list"
  | JObject "(string \<times> json) list"

record SidekiqJob =
  Class :: string
  Args :: "json list"
  JID :: string
  Queue :: string
  CreatedAt :: real
  EnqueuedAt :: real
  Retry :: "64 word"
  FailedAt :: real
  ErrorMsg :: string
  ErrorClass :: string

record JobResult =
  Status :: string
  Result :: string
  ExecutionTime :: real
  ErrorMessage :: string

definition empty_JobResult :: JobResult where
  "empty_JobResult = \<lparr>Status = [], Result = [], ExecutionTime = 0, ErrorMessage = []\<rparr>"

section \<open>The clock\<close>

text \<open>
  A \<open>time.Time\<close> is the number of nanoseconds since the Unix epoch and a
  \<open>time.Duration\<close> a number of nanoseconds.  Every call of \<open>time.Now()\<close> in the
  source is an argument of the model, in the order of the calls.  \<open>Unix\<close> rounds
  down to whole seconds.  Differences of times are taken as they are: the times of one
  run lie far closer together than the 292 years at which \<open>Time.Sub\<close> saturates.
  The conversion \<open>float64(n)\<close> of an \<open>int64\<close> number of
  seconds is exact below \<open>2 ^ 53\<close> and is modelled by the embedding of the integers.
\<close>

type_synonym time = int
type_synonym duration = int

definition Millisecond :: duration where
  "Millisecond = 1000000"

definition Second :: duration where
  "Second = 1000000000"

definition Unix :: "time \<Rightarrow> int" where
  "Unix t = t div Second"

definition time_Add :: "time \<Rightarrow> duration \<Rightarrow> time" where
  "time_Add t d = t + d"

definition time_Since :: "time \<Rightarrow> time \<Rightarrow> duration" where
  "time_Since now t = now - t"

definition float64 :: "int \<Rightarrow> real" where
  "float64 n = of_int n"

section \<open>Semaphore (package concurrency)\<close>

text \<open>
  The Go struct holds a buffered channel \<open>ch\<close> of empty structs, the capacity, the
  active count and a WaitGroup.  Only the number of tokens buffered in the channel
  matters, so \<open>ch\<close> is that number; \<open>wg\<close> is the WaitGroup counter.  The mutex only
  protects \<open>active\<close> and has no state of its own in a model where every call runs to
  its end before the next one starts.  The counts are bounded by the capacity, so
  they are integers without wrap-around.
\<close>

record Semaphore =
  ch :: nat
  capacity :: int
  active :: int
  wg :: int

datatype go_panic = NegativeWaitGroupCounter | NilPointerDereference

definition NewSemaphore :: "int \<Rightarrow> Semaphore" where
  "NewSemaphore c =
     (let c' = (if c \<le> 0 then 1 else c)
      in \<lparr>ch = 0, capacity = c', active = 0, wg = 0\<rparr>)"

text \<open>A send on the buffered channel is ready exactly when the buffer is not full.\<close>

definition can_send :: "Semaphore \<Rightarrow> bool" where
  "can_send s \<longleftrightarrow> int (ch s) < capacity s"

definition take_token :: "Semaphore \<Rightarrow> Semaphore" where
  "take_token s = s\<lparr>ch := Suc (ch s), active := active s + 1, wg := wg s + 1\<rparr>"

text \<open>
  \<open>Acquire\<close> is a \<open>select\<close> over the send and \<open>ctx.Done()\<close>.  \<open>ctx_done\<close> says whether
  the context is cancelled; when both cases are ready Go picks one of them at random,
  which is the argument \<open>pick_send\<close>.  When neither is ready the call blocks: the
  result \<open>None\<close> says that it has not returned, and the state is unchanged.
\<close>

definition Acquire :: "bool \<Rightarrow> bool \<Rightarrow> Semaphore \<Rightarrow> bool option \<times> Semaphore" where
  "Acquire ctx_done pick_send s =
     (if can_send s \<and> (\<not> ctx_done \<or> pick_send) then (Some True, take_token s)
      else if ctx_done then (Some False, s)
      else (None, s))"

definition TryAcquire :: "Semaphore \<Rightarrow> bool \<times> Semaphore" where
  "TryAcquire s = (if can_send s then (True, take_token s) else (False, s))"

text \<open>
  \<open>Release\<close> receives from the channel when a token is buffered, decrements \<open>active\<close>
  and calls \<open>wg.Done()\<close>, which panics when the counter would become negative.  With
  an empty channel the \<open>default\<close> case does nothing.
\<close>

definition Release :: "Semaphore \<Rightarrow> go_panic + Semaphore" where
  "Release s =
     (if 0 < ch s
      then (if wg s - 1 < 0 then Inl NegativeWaitGroupCounter
            else Inr (s\<lparr>ch := ch s - 1, active := active s - 1, wg := wg s - 1\<rparr>))
      else Inr s)"

definition ActiveCount :: "Semaphore \<Rightarrow> int" where
  "ActiveCount s = active s"

definition Capacity :: "Semaphore \<Rightarrow> int" where
  "Capacity s = capacity s"

text \<open>A sequence of calls on one semaphore; a panic ends it.\<close>

datatype sem_call = CallAcquire bool bool | CallTryAcquire | CallRelease

fun sem_call_step :: "Semaphore \<Rightarrow> sem_call \<Rightarrow> go_panic + Semaphore" where
  "sem_call_step s (CallAcquire ctx_done pick_send) = Inr (snd (Acquire ctx_done pick_send s))"
| "sem_call_step s CallTryAcquire = Inr (snd (TryAcquire s))"
| "sem_call_step s CallRelease = Release s"

fun sem_calls :: "Semaphore \<Rightarrow> sem_call list \<Rightarrow> go_panic + Semaphore" where
  "sem_calls s [] = Inr s"
| "sem_calls s (c # cs) =
     (case sem_call_step s c of Inl p \<Rightarrow> Inl p | Inr s' \<Rightarrow> sem_calls s' cs)"

text \<open>The invariant of the reachable states.\<close>

definition sem_inv :: "Semaphore \<Rightarrow> bool" where
  "sem_inv s \<longleftrightarrow> int (ch s) = active s \<and> wg s = active s \<and> active s \<le> capacity s"

section \<open>The shared store\<close>

text \<open>
  The store is a Redis server reached through the go-redis client.  Of its state the
  program uses lists and sorted sets.  A key that holds nothing is the empty list or
  the empty sorted set, as in Redis.  The head of a list is its left end.  A sorted
  set is the list of its \<open>(score, member)\<close> pairs in rank order: ascending by score,
  members of equal score in the order of their bytes; a member occurs once.
\<close>

record redis =
  lists :: "string \<Rightarrow> string list"
  zsets :: "string \<Rightarrow> (real \<times> string) list"

definition empty_redis :: redis where
  "empty_redis = \<lparr>lists = (\<lambda>k. []), zsets = (\<lambda>k. [])\<rparr>"

text \<open>\<open>LPUSH key value\<close> puts the value at the head of the list.\<close>

definition lpush :: "string \<Rightarrow> string \<Rightarrow> redis \<Rightarrow> redis" where
  "lpush k v r = r\<lparr>lists := (lists r)(k := v # lists r k)\<rparr>"

text \<open>
  \<open>BLPOP key ... timeout\<close> takes the head of the first list, in the order of the
  keys, that is not empty, and answers the key and the value.  When all are empty and
  stay so for the timeout, the answer is nil.
\<close>

fun blpop :: "string list \<Rightarrow> redis \<Rightarrow> (string list \<times> redis) option" where
  "blpop [] r = None"
| "blpop (k # ks) r =
     (case lists r k of
        [] \<Rightarrow> blpop ks r
      | v # vs \<Rightarrow> Some ([k, v], r\<lparr>lists := (lists r)(k := vs)\<rparr>))"

text \<open>\<open>ZADD key score member\<close> adds the member, or moves it when it is there already.\<close>

definition zadd_entries :: "real \<Rightarrow> string \<Rightarrow> (real \<times> string) list \<Rightarrow> (real \<times> string) list" where
  "zadd_entries sc m zs = insort (sc, m) (filter (\<lambda>e. snd e \<noteq> m) zs)"

definition zadd :: "string \<Rightarrow> real \<Rightarrow> string \<Rightarrow> redis \<Rightarrow> redis" where
  "zadd k sc m r = r\<lparr>zsets := (zsets r)(k := zadd_entries sc m (zsets r k))\<rparr>"

text \<open>
  \<open>ZREMRANGEBYRANK key start stop\<close> removes the entries of rank \<open>start\<close> to \<open>stop\<close>,
  both included.  Ranks count from 0 at the lowest score; a negative rank counts from
  the highest score, \<open>-1\<close> being the last entry.  The adjustments are those of the
  server: a negative rank has the length added, a start that is still negative is 0,
  nothing is removed when the start is beyond the stop or the end of the set, and a
  stop beyond the end is the last rank.
\<close>

definition zremrangebyrank_entries :: "int \<Rightarrow> int \<Rightarrow> (real \<times> string) list \<Rightarrow> (real \<times> string) list" where
  "zremrangebyrank_entries start stop zs =
     (let llen = int (length zs);
          start1 = (if start < 0 then llen + start else start);
          stop1 = (if stop < 0 then llen + stop else stop);
          start2 = (if start1 < 0 then 0 else start1)
      in if start2 > stop1 \<or> start2 \<ge> llen then zs
         else (let stop2 = (if stop1 \<ge> llen then llen - 1 else stop1)
               in take (nat start2) zs @ drop (nat stop2 + 1) zs))"

definition zremrangebyrank :: "string \<Rightarrow> int \<Rightarrow> int \<Rightarrow> redis \<Rightarrow> redis" where
  "zremrangebyrank k start stop r =
     r\<lparr>zsets := (zsets r)(k := zremrangebyrank_entries start stop (zsets r k))\<rparr>"

text \<open>A sorted set as the server keeps it: in rank order, each member once.\<close>

definition zset_ok :: "(real \<times> string) list \<Rightarrow> bool" where
  "zset_ok zs \<longleftrightarrow> sorted zs \<and> distinct (map snd zs)"

subsection \<open>The connection\<close>

text \<open>
  A command can fail in transport (connection lost, timeout, pool exhausted).  The
  connection carries the server's state and the outcomes of the commands to come:
  \<open>faults\<close> is consumed one element per command, \<open>True\<close> meaning that the command
  fails and leaves the server untouched; when it is empty no command fails.
\<close>

record redis_conn =
  db :: redis
  faults :: "bool list"

datatype redis_error = RedisNil | RedisFailure

definition next_fault :: "redis_conn \<Rightarrow> bool \<times> redis_conn" where
  "next_fault c = (case faults c of [] \<Rightarrow> (False, c) | f # fs \<Rightarrow> (f, c\<lparr>faults := fs\<rparr>))"

definition cmd_BLPop :: "string list \<Rightarrow> redis_conn \<Rightarrow> (redis_error + string list) \<times> redis_conn" where
  "cmd_BLPop keys c =
     (let (f, c1) = next_fault c
      in if f \<or> keys = [] then (Inl RedisFailure, c1)
         else (case blpop keys (db c1) of
                 None \<Rightarrow> (Inl RedisNil, c1)
               | Some (res, r) \<Rightarrow> (Inr res, c1\<lparr>db := r\<rparr>)))"

definition cmd_LPush :: "string \<Rightarrow> string \<Rightarrow> redis_conn \<Rightarrow> redis_error option \<times> redis_conn" where
  "cmd_LPush k v c =
     (let (f, c1) = next_fault c
      in if f then (Some RedisFailure, c1) else (None, c1\<lparr>db := lpush k v (db c1)\<rparr>))"

definition cmd_ZAdd :: "string \<Rightarrow> real \<Rightarrow> string \<Rightarrow> redis_conn \<Rightarrow> redis_error option \<times> redis_conn" where
  "cmd_ZAdd k sc m c =
     (let (f, c1) = next_fault c
      in if f then (Some RedisFailure, c1) else (None, c1\<lparr>db := zadd k sc m (db c1)\<rparr>))"

definition cmd_ZRemRangeByRank :: "string \<Rightarrow> int \<Rightarrow> int \<Rightarrow> redis_conn \<Rightarrow> redis_error option \<times> redis_conn" where
  "cmd_ZRemRangeByRank k start stop c =
     (let (f, c1) = next_fault c
      in if f then (Some RedisFailure, c1)
         else (None, c1\<lparr>db := zremrangebyrank k start stop (db c1)\<rparr>))"

section \<open>The store adapter (package redis)\<close>

text \<open>
  \<open>json.Marshal\<close> and \<open>json.Unmarshal\<close> belong to Go's library; the adapter takes
  them as the arguments \<open>marshal\<close> (\<open>None\<close> when encoding fails) and \<open>unmarshal\<close>
  (\<open>None\<close> when the payload is not a job record).
\<close>

datatype store_error =
    PollFailed
  | InvalidBLPOPResult
  | UnmarshalJobFailed
  | MarshalRetryFailed
  | ScheduleRetryFailed
  | EnqueueRetryFailed
  | MarshalDeadFailed
  | MoveToDeadFailed

definition queue_key :: "string \<Rightarrow> string" where
  "queue_key q = ''queue:'' @ q"

text \<open>
  \<open>PollJobs\<close>: the first component of the result is the error or the job (\<open>None\<close>
  for Go's \<open>nil, nil\<close>: no job within the wait).
\<close>

definition PollJobs ::
  "(string \<Rightarrow> SidekiqJob option) \<Rightarrow> string list \<Rightarrow> redis_conn
     \<Rightarrow> (store_error + SidekiqJob option) \<times> redis_conn" where
  "PollJobs unmarshal queues c =
     (let sidekiqQueues = map queue_key queues
      in case cmd_BLPop sidekiqQueues c of
           (Inl RedisNil, c1) \<Rightarrow> (Inr None, c1)
         | (Inl RedisFailure, c1) \<Rightarrow> (Inl PollFailed, c1)
         | (Inr result, c1) \<Rightarrow>
             if length result < 2 then (Inl InvalidBLPOPResult, c1)
             else (case unmarshal (result ! 1) of
                     None \<Rightarrow> (Inl UnmarshalJobFailed, c1)
                   | Some sidekiqJob \<Rightarrow> (Inr (Some sidekiqJob), c1)))"

text \<open>
  \<open>EnqueueRetry\<close> writes through the pointer to the job before anything can fail, so
  the updated record is a result in every case.  \<open>now1\<close> and \<open>now2\<close> are the two
  readings of the clock, in this order.
\<close>

definition EnqueueRetry ::
  "(SidekiqJob \<Rightarrow> string option) \<Rightarrow> time \<Rightarrow> time \<Rightarrow> SidekiqJob \<Rightarrow> duration \<Rightarrow> redis_conn
     \<Rightarrow> store_error option \<times> SidekiqJob \<times> redis_conn" where
  "EnqueueRetry marshal now1 now2 jobToRetry delay c =
     (let now = float64 (Unix now1);
          job1 = jobToRetry\<lparr>FailedAt := now, Retry := Retry jobToRetry + 1\<rparr>
      in case marshal job1 of
           None \<Rightarrow> (Some MarshalRetryFailed, job1, c)
         | Some jobJSON \<Rightarrow>
             (let retryAt = Unix (time_Add now2 delay)
              in if delay > 0
                 then (let score = float64 retryAt
                       in case cmd_ZAdd ''schedule'' score jobJSON c of
                            (Some e, c1) \<Rightarrow> (Some ScheduleRetryFailed, job1, c1)
                          | (None, c1) \<Rightarrow> (None, job1, c1))
                 else (let queueName = queue_key (Queue job1)
                       in case cmd_LPush queueName jobJSON c of
                            (Some e, c1) \<Rightarrow> (Some EnqueueRetryFailed, job1, c1)
                          | (None, c1) \<Rightarrow> (None, job1, c1))))"

text \<open>
  \<open>MoveToDLQ\<close>: a failure of the trimming command is printed as a warning and is not
  an error of the call; the last component of the result says whether the warning
  was printed.
\<close>

definition MoveToDLQ ::
  "(SidekiqJob \<Rightarrow> string option) \<Rightarrow> time \<Rightarrow> time \<Rightarrow> SidekiqJob \<Rightarrow> redis_conn
     \<Rightarrow> store_error option \<times> SidekiqJob \<times> redis_conn \<times> bool" where
  "MoveToDLQ marshal now1 now2 jobToMove c =
     (let now = float64 (Unix now1);
          job1 = jobToMove\<lparr>FailedAt := now\<rparr>
      in case marshal job1 of
           None \<Rightarrow> (Some MarshalDeadFailed, job1, c, False)
         | Some jobJSON \<Rightarrow>
             (let score = float64 (Unix now2)
              in case cmd_ZAdd ''dead'' score jobJSON c of
                   (Some e, c1) \<Rightarrow> (Some MoveToDeadFailed, job1, c1, False)
                 | (None, c1) \<Rightarrow>
                     (case cmd_ZRemRangeByRank ''dead'' 0 (- 10001) c1 of
                        (Some e, c2) \<Rightarrow> (None, job1, c2, True)
                      | (None, c2) \<Rightarrow> (None, job1, c2, False))))"

section \<open>Circuit breaker (package sidecar)\<close>

text \<open>
  \<open>failures\<close> and \<open>maxFailures\<close> are Go \<open>int\<close>s: 64-bit words, compared as signed
  numbers.  \<open>CircuitState\<close> has the three declared values.
\<close>

datatype CircuitState = StateClosed | StateOpen | StateHalfOpen

record CircuitBreaker =
  maxFailures :: "64 word"
  resetTimeout :: duration
  failures :: "64 word"
  lastFailTime :: time
  state :: CircuitState

text \<open>The zero \<open>time.Time\<close>: January 1 of year 1, as nanoseconds before the epoch.\<close>

definition zero_time :: time where
  "zero_time = - 62135596800 * Second"

definition NewCircuitBreaker :: "64 word \<Rightarrow> duration \<Rightarrow> CircuitBreaker" where
  "NewCircuitBreaker mf rt =
     \<lparr>maxFailures = mf, resetTimeout = rt, failures = 0, lastFailTime = zero_time,
      state = StateClosed\<rparr>"

definition AllowRequest :: "time \<Rightarrow> CircuitBreaker \<Rightarrow> bool \<times> CircuitBreaker" where
  "AllowRequest now cb =
     (case state cb of
        StateClosed \<Rightarrow> (True, cb)
      | StateOpen \<Rightarrow>
          if time_Since now (lastFailTime cb) > resetTimeout cb
          then (True, cb\<lparr>state := StateHalfOpen\<rparr>)
          else (False, cb)
      | StateHalfOpen \<Rightarrow> (True, cb))"

definition RecordSuccess :: "CircuitBreaker \<Rightarrow> CircuitBreaker" where
  "RecordSuccess cb = cb\<lparr>failures := 0, state := StateClosed\<rparr>"

definition RecordFailure :: "time \<Rightarrow> CircuitBreaker \<Rightarrow> CircuitBreaker" where
  "RecordFailure now cb =
     (let cb1 = cb\<lparr>failures := failures cb + 1, lastFailTime := now\<rparr>
      in if sint (maxFailures cb1) \<le> sint (failures cb1) then cb1\<lparr>state := StateOpen\<rparr>
         else cb1)"

definition GetState :: "CircuitBreaker \<Rightarrow> CircuitState" where
  "GetState cb = state cb"

text \<open>Consecutive failures, recorded at the given times, with no success in between.\<close>

fun record_failures :: "time list \<Rightarrow> CircuitBreaker \<Rightarrow> CircuitBreaker" where
  "record_failures [] cb = cb"
| "record_failures (t # ts) cb = record_failures ts (RecordFailure t cb)"

section \<open>HTTP client (package sidecar)\<close>

text \<open>
  What the executor answers to the \<open>i\<close>-th send of a request is the environment of
  the client: the body cannot be produced again (\<open>GetBody\<close> fails), the request
  fails in transport (connection failure, timeout), the response arrives but its body
  cannot be read, or a response arrives with a status code and a body.
\<close>

datatype http_outcome =
    GetBodyError
  | DoError
  | ReadBodyError
  | Response int string

datatype attempt_error =
    NoAttempt
  | RequestFailed int
  | ReadBodyFailed int
  | ServerError int int string

datatype exec_error =
    CircuitOpen
  | MarshalJobFailed
  | CreateRequestFailed
  | GetBodyFailed
  | ClientError int string
  | DecodeResponseFailed
  | RequestFailedAfter int attempt_error

datatype http_event = Sleep duration | Send int

text \<open>
  \<open>executeWithRetry\<close>.  \<open>outcomes\<close> gives the outcome of the send in each attempt,
  \<open>result\<close> is the pointer to the struct to decode into (\<open>None\<close> for \<open>nil\<close>) and
  \<open>decode body r\<close> is \<open>json.Unmarshal\<close> of the body into the struct \<open>r\<close>.  The loop
  state is the attempt number, the last error and the events so far; the result is
  the error (\<open>None\<close> for \<open>nil\<close>), the struct behind \<open>result\<close>, and the sleeps and
  sends in their order.
\<close>

function executeWithRetry_from ::
  "(int \<Rightarrow> http_outcome) \<Rightarrow> (string \<Rightarrow> JobResult \<Rightarrow> JobResult option) \<Rightarrow> JobResult option
     \<Rightarrow> int \<Rightarrow> int \<Rightarrow> attempt_error \<Rightarrow> http_event list
     \<Rightarrow> exec_error option \<times> JobResult option \<times> http_event list" where
  "executeWithRetry_from outcomes decode result maxRetries attempt lastErr evs =
     (if attempt \<le> maxRetries
      then (let evs1 = (if attempt > 0
                        then evs @ [Sleep (attempt * attempt * 100 * Millisecond)]
                        else evs)
            in case outcomes attempt of
                 GetBodyError \<Rightarrow> (Some GetBodyFailed, result, evs1)
               | DoError \<Rightarrow>
                   executeWithRetry_from outcomes decode result maxRetries (attempt + 1)
                     (RequestFailed (attempt + 1)) (evs1 @ [Send attempt])
               | ReadBodyError \<Rightarrow>
                   executeWithRetry_from outcomes decode result maxRetries (attempt + 1)
                     (ReadBodyFailed (attempt + 1)) (evs1 @ [Send attempt])
               | Response code body \<Rightarrow>
                   if code \<ge> 500
                   then executeWithRetry_from outcomes decode result maxRetries (attempt + 1)
                          (ServerError (attempt + 1) code body) (evs1 @ [Send attempt])
                   else if code \<ge> 400
                   then (Some (ClientError code body), result, evs1 @ [Send attempt])
                   else (case result of
                           None \<Rightarrow> (None, None, evs1 @ [Send attempt])
                         | Some r \<Rightarrow>
                             (case decode body r of
                                None \<Rightarrow> (Some DecodeResponseFailed, result, evs1 @ [Send attempt])
                              | Some r' \<Rightarrow> (None, Some r', evs1 @ [Send attempt]))))
      else (Some (RequestFailedAfter (maxRetries + 1) lastErr), result, evs))"
  by pat_completeness auto
termination
  by (relation "measure (\<lambda>(outcomes, decode, result, maxRetries, attempt, lastErr, evs).
        nat (maxRetries + 1 - attempt))") auto

definition executeWithRetry ::
  "(int \<Rightarrow> http_outcome) \<Rightarrow> (string \<Rightarrow> JobResult \<Rightarrow> JobResult option) \<Rightarrow> JobResult option
     \<Rightarrow> int \<Rightarrow> exec_error option \<times> JobResult option \<times> http_event list" where
  "executeWithRetry outcomes decode result maxRetries =
     executeWithRetry_from outcomes decode result maxRetries 0 NoAttempt []"

text \<open>
  The client.  Of the struct only the breaker changes.  \<open>request_ok\<close> says whether
  \<open>http.NewRequest\<close> accepts the URL.  \<open>now_allow\<close> is the clock when the breaker is
  asked and \<open>now_fail\<close> when a failure is recorded.  The results are Go's pair
  \<open>(*JobResult, error)\<close>, the client, and the sleeps and sends.
\<close>

record HTTPClient =
  baseURL :: string
  breaker :: CircuitBreaker

definition NewHTTPClient :: "string \<Rightarrow> HTTPClient" where
  "NewHTTPClient url = \<lparr>baseURL = url, breaker = NewCircuitBreaker 5 (30 * Second)\<rparr>"

definition ExecuteJob ::
  "(SidekiqJob \<Rightarrow> string option) \<Rightarrow> bool \<Rightarrow> (int \<Rightarrow> http_outcome)
     \<Rightarrow> (string \<Rightarrow> JobResult \<Rightarrow> JobResult option) \<Rightarrow> time \<Rightarrow> time
     \<Rightarrow> SidekiqJob \<Rightarrow> HTTPClient
     \<Rightarrow> (JobResult option \<times> exec_error option) \<times> HTTPClient \<times> http_event list" where
  "ExecuteJob marshal request_ok outcomes decode now_allow now_fail jobData c =
     (case AllowRequest now_allow (breaker c) of
        (False, b1) \<Rightarrow> ((None, Some CircuitOpen), c\<lparr>breaker := b1\<rparr>, [])
      | (True, b1) \<Rightarrow>
          (case marshal jobData of
             None \<Rightarrow> ((None, Some MarshalJobFailed), c\<lparr>breaker := b1\<rparr>, [])
           | Some payload \<Rightarrow>
               if \<not> request_ok
               then ((None, Some CreateRequestFailed), c\<lparr>breaker := b1\<rparr>, [])
               else (case executeWithRetry outcomes decode (Some empty_JobResult) 3 of
                       (Some err, res, evs) \<Rightarrow>
                         ((None, Some err), c\<lparr>breaker := RecordFailure now_fail b1\<rparr>, evs)
                     | (None, res, evs) \<Rightarrow>
                         ((res, None), c\<lparr>breaker := RecordSuccess b1\<rparr>, evs))))"

text \<open>An outcome after which the loop goes on to the next attempt.\<close>

fun retryable :: "http_outcome \<Rightarrow> bool" where
  "retryable DoError = True"
| "retryable ReadBodyError = True"
| "retryable (Response code body) = (code \<ge> 500)"
| "retryable GetBodyError = False"

text \<open>The error the loop keeps as \<open>lastErr\<close> after such an outcome in the given attempt.\<close>

fun attempt_error_of :: "int \<Rightarrow> http_outcome \<Rightarrow> attempt_error" where
  "attempt_error_of attempt DoError = RequestFailed (attempt + 1)"
| "attempt_error_of attempt ReadBodyError = ReadBodyFailed (attempt + 1)"
| "attempt_error_of attempt (Response code body) = ServerError (attempt + 1) code body"
| "attempt_error_of attempt GetBodyError = NoAttempt"

text \<open>The sends and sleeps of four attempts, in order.\<close>

definition four_attempts :: "http_event list" where
  "four_attempts =
     [Send 0, Sleep (100 * Millisecond), Send 1, Sleep (400 * Millisecond), Send 2,
      Sleep (900 * Millisecond), Send 3]"

section \<open>Concurrent processor (package concurrency)\<close>

text \<open>
  Of the struct, \<open>ctx\<close> and \<open>cancel\<close> are the flag \<open>cancelled\<close>, \<open>cp_wg\<close> is the counter
  of the processor's own WaitGroup, and \<open>tasks\<close> are the jobs whose goroutine has been
  spawned and has not finished.  The executor is an interface value; its
  \<open>ExecuteJob\<close> is the argument \<open>executor\<close> of the functions that call it, with Go's
  pair \<open>(*JobResult, error)\<close> as result.  The struct has no handle on the store.
\<close>

record ConcurrentProcessor =
  semaphore :: Semaphore
  cancelled :: bool
  cp_wg :: int
  running :: bool
  tasks :: "SidekiqJob list"

datatype proc_error = ErrShuttingDown | ErrContextCancelled | ErrShutdownTimeout

datatype log_entry =
    LogStarting string string
  | LogFailedError string string string duration
  | LogCompleted string string duration
  | LogFailedStatus string string string duration
  | LogPollError store_error
  | LogSubmitError proc_error

definition NewConcurrentProcessor :: "int \<Rightarrow> ConcurrentProcessor" where
  "NewConcurrentProcessor concurrency =
     \<lparr>semaphore = NewSemaphore concurrency, cancelled = False, cp_wg = 0, running = True,
      tasks = []\<rparr>"

text \<open>
  \<open>ProcessJob\<close> returns an error or \<open>nil\<close>, or is blocked in \<open>Acquire\<close> and has not
  returned.  The call is one step of the model.  In the program a \<open>Shutdown\<close> can run
  between the check of \<open>running\<close> and the \<open>Acquire\<close>; then \<open>Acquire\<close> meets a
  cancelled context after the check has passed, which is the case \<open>running\<close> and
  \<open>cancelled\<close> of the model.
\<close>

datatype submit_result = SubmitBlocked | SubmitReturned "proc_error option"

definition ProcessJob ::
  "bool \<Rightarrow> SidekiqJob \<Rightarrow> ConcurrentProcessor \<Rightarrow> submit_result \<times> ConcurrentProcessor" where
  "ProcessJob pick_send job cp =
     (if \<not> running cp then (SubmitReturned (Some ErrShuttingDown), cp)
      else (case Acquire (cancelled cp) pick_send (semaphore cp) of
              (None, s) \<Rightarrow> (SubmitBlocked, cp)
            | (Some False, s) \<Rightarrow>
                (SubmitReturned (Some ErrContextCancelled), cp\<lparr>semaphore := s\<rparr>)
            | (Some True, s) \<Rightarrow>
                (SubmitReturned None,
                 cp\<lparr>semaphore := s, cp_wg := cp_wg cp + 1, tasks := tasks cp @ [job]\<rparr>)))"

text \<open>
  \<open>executeJob\<close> calls the executor and writes to the log; \<open>start\<close> and \<open>stop\<close> are the
  clock before and after the call.  It touches nothing else.  When the executor
  returns neither a result nor an error, reading \<open>result.Status\<close> panics.
\<close>

definition executeJob ::
  "(SidekiqJob \<Rightarrow> JobResult option \<times> string option) \<Rightarrow> time \<Rightarrow> time \<Rightarrow> SidekiqJob
     \<Rightarrow> log_entry list \<times> go_panic option" where
  "executeJob executor start stop job =
     (let starting = LogStarting (JID job) (Class job);
          (result, err) = executor job;
          duration = time_Since stop start
      in case err of
           Some e \<Rightarrow> ([starting, LogFailedError (JID job) (Class job) e duration], None)
         | None \<Rightarrow>
             (case result of
                None \<Rightarrow> ([starting], Some NilPointerDereference)
              | Some r \<Rightarrow>
                  if Status r = ''success''
                  then ([starting, LogCompleted (JID job) (Class job) duration], None)
                  else ([starting,
                         LogFailedStatus (JID job) (Class job) (ErrorMessage r) duration],
                        None)))"

datatype shutdown_event =
    LogInitiating duration
  | CancelContext
  | WaitForDrain duration
  | LogShutdownCompleted
  | LogShutdownTimedOut duration

text \<open>
  \<open>Shutdown\<close>.  Whether the tasks drain before the timeout is decided by the other
  goroutines and the clock: it is the argument \<open>drained\<close>.  The events are what the
  call did, in order.
\<close>

definition Shutdown ::
  "duration \<Rightarrow> bool \<Rightarrow> ConcurrentProcessor
     \<Rightarrow> proc_error option \<times> ConcurrentProcessor \<times> shutdown_event list" where
  "Shutdown timeout drained cp =
     (if \<not> running cp then (None, cp, [])
      else (let cp1 = cp\<lparr>running := False\<rparr>;
                cp2 = cp1\<lparr>cancelled := True\<rparr>
            in if drained
               then (None, cp2,
                     [LogInitiating timeout, CancelContext, WaitForDrain timeout,
                      LogShutdownCompleted])
               else (Some ErrShutdownTimeout, cp2,
                     [LogInitiating timeout, CancelContext, WaitForDrain timeout,
                      LogShutdownTimedOut timeout])))"

definition ActiveJobs :: "ConcurrentProcessor \<Rightarrow> int" where
  "ActiveJobs cp = ActiveCount (semaphore cp)"

definition IsRunning :: "ConcurrentProcessor \<Rightarrow> bool" where
  "IsRunning cp = running cp"

section \<open>The worker (package main)\<close>

text \<open>The worker owns the connection to the store and the processor, and writes a log.\<close>

record worker =
  conn :: redis_conn
  processor :: ConcurrentProcessor
  logs :: "log_entry list"

text \<open>
  The goroutine that \<open>ProcessJob\<close> spawns: \<open>executeJob\<close>, then the deferred
  \<open>semaphore.Release()\<close> and \<open>wg.Done()\<close>, which run also when \<open>executeJob\<close> panics.
\<close>

definition run_task ::
  "(SidekiqJob \<Rightarrow> JobResult option \<times> string option) \<Rightarrow> time \<Rightarrow> time \<Rightarrow> SidekiqJob
     \<Rightarrow> worker \<Rightarrow> go_panic + worker" where
  "run_task executor start stop job w =
     (let (entries, panicked) = executeJob executor start stop job;
          w1 = w\<lparr>logs := logs w @ entries\<rparr>;
          cp = processor w1
      in case Release (semaphore cp) of
           Inl p \<Rightarrow> Inl p
         | Inr s \<Rightarrow>
             if cp_wg cp - 1 < 0 then Inl NegativeWaitGroupCounter
             else (case panicked of
                     Some p \<Rightarrow> Inl p
                   | None \<Rightarrow>
                       Inr (w1\<lparr>processor :=
                              cp\<lparr>semaphore := s, cp_wg := cp_wg cp - 1,
                                 tasks := remove1 job (tasks cp)\<rparr>\<rparr>)))"

text \<open>
  One turn of the main loop.  \<open>ctx_done\<close> says whether the supervisor's context is
  cancelled.  The turn ends the loop, or goes on to the next turn after an optional
  sleep, or is blocked inside \<open>ProcessJob\<close>.
\<close>

datatype loop_step =
    LoopReturn
  | LoopContinue "duration option" worker
  | LoopBlocked worker

definition worker_iteration ::
  "(string \<Rightarrow> SidekiqJob option) \<Rightarrow> string list \<Rightarrow> duration \<Rightarrow> bool \<Rightarrow> bool \<Rightarrow> worker
     \<Rightarrow> loop_step" where
  "worker_iteration unmarshal queues poll_interval ctx_done pick_send w =
     (if ctx_done then LoopReturn
      else (case PollJobs unmarshal queues (conn w) of
              (Inl err, c1) \<Rightarrow>
                LoopContinue (Some (1 * Second))
                  (w\<lparr>conn := c1, logs := logs w @ [LogPollError err]\<rparr>)
            | (Inr None, c1) \<Rightarrow> LoopContinue (Some poll_interval) (w\<lparr>conn := c1\<rparr>)
            | (Inr (Some job), c1) \<Rightarrow>
                (case ProcessJob pick_send job (processor w) of
                   (SubmitBlocked, cp1) \<Rightarrow> LoopBlocked (w\<lparr>conn := c1, processor := cp1\<rparr>)
                 | (SubmitReturned (Some err), cp1) \<Rightarrow>
                     LoopContinue None
                       (w\<lparr>conn := c1, processor := cp1, logs := logs w @ [LogSubmitError err]\<rparr>)
                 | (SubmitReturned None, cp1) \<Rightarrow>
                     LoopContinue None (w\<lparr>conn := c1, processor := cp1\<rparr>))))"

section \<open>gRPC client (package sidecar)\<close>

subsection \<open>Printing a value with the verb v\<close>

text \<open>
  \<open>fmt.Sprintf("%v", arg)\<close> on the values the JSON decoder produces.  For a
  \<open>float64\<close> the verb \<open>v\<close> is the format \<open>g\<close> of \<open>strconv\<close> with the shortest digits.
  \<open>fmtE\<close> and \<open>fmtF\<close> lay the digits out with and without an exponent, \<open>prec\<close>
  being the number of digits after the point; the exponent has at least two digits.
\<close>

definition digit_char :: "int \<Rightarrow> char" where
  "digit_char n = ''0123456789'' ! nat n"

definition sign_text :: "bool \<Rightarrow> string" where
  "sign_text neg = (if neg then ''-'' else [])"

definition exponent_text :: "int \<Rightarrow> string" where
  "exponent_text e =
     (let (sign, exp) = (if e < 0 then (CHR ''-'', - e) else (CHR ''+'', e))
      in sign #
         (if exp < 10 then [CHR ''0'', digit_char exp]
          else if exp < 100 then [digit_char (exp div 10), digit_char (exp mod 10)]
          else [digit_char (exp div 100), digit_char ((exp div 10) mod 10),
                digit_char (exp mod 10)]))"

definition fmtE :: "bool \<Rightarrow> string \<Rightarrow> int \<Rightarrow> int \<Rightarrow> string" where
  "fmtE neg ds dp prec =
     sign_text neg
     @ [if ds = [] then CHR ''0'' else hd ds]
     @ (if prec > 0
        then (let m = min (length ds) (nat (prec + 1))
              in ''.'' @ drop 1 (take m ds) @ replicate (nat prec + 1 - max 1 m) CHR ''0'')
        else [])
     @ ''e'' @ exponent_text (if ds = [] then 0 else dp - 1)"

definition fmtF :: "bool \<Rightarrow> string \<Rightarrow> int \<Rightarrow> int \<Rightarrow> string" where
  "fmtF neg ds dp prec =
     sign_text neg
     @ (if dp > 0
        then (let m = min (length ds) (nat dp)
              in take m ds @ replicate (nat dp - m) CHR ''0'')
        else ''0'')
     @ (if prec > 0
        then ''.'' @ map (\<lambda>i. let j = dp + int i
                             in if 0 \<le> j \<and> j < int (length ds) then ds ! nat j
                                else CHR ''0'')
                        [0..<nat prec]
        else [])"

text \<open>
  The format \<open>g\<close> in the shortest mode: the precision is the number of digits; the
  exponent form is used when the exponent is below \<open>-4\<close> or at least 6.
\<close>

definition format_g :: "bool \<Rightarrow> string \<Rightarrow> int \<Rightarrow> string" where
  "format_g neg ds dp =
     (let prec = int (length ds);
          eprec = 6;
          exp = dp - 1
      in if exp < - 4 \<or> exp \<ge> eprec then fmtE neg ds dp (prec - 1)
         else fmtF neg ds dp (max (prec - dp) 0))"

fun fmtFloat_v :: "float64_value \<Rightarrow> string" where
  "fmtFloat_v (Finite neg ds dp) = format_g neg ds dp"
| "fmtFloat_v (Infinite neg) = (if neg then ''-Inf'' else ''+Inf'')"
| "fmtFloat_v NaN = ''NaN''"

text \<open>
  \<open>nil\<close> prints as \<open><nil>\<close>, a slice as its elements between brackets, a map as its
  entries in the order of the keys.
\<close>

fun join_space :: "string list \<Rightarrow> string" where
  "join_space [] = []"
| "join_space [x] = x"
| "join_space (x # y # ys) = x @ '' '' @ join_space (y # ys)"

fun sprintf_v :: "json \<Rightarrow> string" where
  "sprintf_v JNull = ''<nil>''"
| "sprintf_v (JBool b) = (if b then ''true'' else ''false'')"
| "sprintf_v (JNumber x) = fmtFloat_v x"
| "sprintf_v (JString s) = s"
| "sprintf_v (JArray xs) = ''['' @ join_space (map sprintf_v xs) @ '']''"
| "sprintf_v (JObject kvs) =
     ''map['' @ join_space (map (\<lambda>kv. fst kv @ '':'' @ sprintf_v (snd kv))
                              (sort_key fst kvs)) @ '']''"

subsection \<open>Reading a decimal text\<close>

text \<open>
  What a text in the notation of \<open>fmtE\<close> and \<open>fmtF\<close> denotes: an optional minus
  sign, digits with an optional point, and an optional exponent after \<open>e\<close>.  The
  result is the sign and the decimal with the zeros at both ends removed.
\<close>

definition digit_value :: "char \<Rightarrow> int" where
  "digit_value x = int (length (takeWhile (\<lambda>d. d \<noteq> x) ''0123456789''))"

fun digits_value :: "int \<Rightarrow> string \<Rightarrow> int" where
  "digits_value acc [] = acc"
| "digits_value acc (x # cs) = digits_value (10 * acc + digit_value x) cs"

definition read_exponent :: "string \<Rightarrow> int" where
  "read_exponent t =
     (case t of
        [] \<Rightarrow> 0
      | x # cs \<Rightarrow>
          if x = CHR ''-'' then - digits_value 0 cs
          else if x = CHR ''+'' then digits_value 0 cs
          else digits_value 0 t)"

definition strip_zeros :: "string \<Rightarrow> string" where
  "strip_zeros ds =
     rev (dropWhile (\<lambda>x. x = CHR ''0'') (rev (dropWhile (\<lambda>x. x = CHR ''0'') ds)))"

definition read_decimal :: "string \<Rightarrow> float64_value" where
  "read_decimal t =
     (let neg = (t \<noteq> [] \<and> hd t = CHR ''-'');
          u = (if neg then tl t else t);
          mantissa = takeWhile (\<lambda>x. x \<noteq> CHR ''e'') u;
          e = read_exponent (drop (length mantissa + 1) u);
          ip = takeWhile (\<lambda>x. x \<noteq> CHR ''.'') mantissa;
          fp = drop (length ip + 1) mantissa;
          leading = length (takeWhile (\<lambda>x. x = CHR ''0'') (ip @ fp));
          ds = strip_zeros (ip @ fp)
      in Finite neg ds (if ds = [] then 0 else int (length ip) - int leading + e))"

record JobRequest =
  req_Class :: string
  req_Jid :: string
  req_Queue :: string
  req_Args :: "string list"
  req_CreatedAt :: real
  req_EnqueuedAt :: real

record JobResponse =
  resp_Status :: string
  resp_Jid :: string
  resp_ExecutionTime :: real
  resp_ErrorMessage :: string

datatype grpc_error = GRPCExecutionFailed

text \<open>
  \<open>GRPCClient.ExecuteJob\<close>: \<open>call\<close> is the remote procedure, \<open>None\<close> when it fails.
  The request that was built is a result too.
\<close>

definition GRPC_ExecuteJob ::
  "(JobRequest \<Rightarrow> JobResponse option) \<Rightarrow> SidekiqJob
     \<Rightarrow> (JobResult option \<times> grpc_error option) \<times> JobRequest" where
  "GRPC_ExecuteJob call jobData =
     (let strArgs = map sprintf_v (Args jobData);
          req = \<lparr>req_Class = Class jobData, req_Jid = JID jobData, req_Queue = Queue jobData,
                 req_Args = strArgs, req_CreatedAt = CreatedAt jobData,
                 req_EnqueuedAt = EnqueuedAt jobData\<rparr>
      in case call req of
           None \<Rightarrow> ((None, Some GRPCExecutionFailed), req)
         | Some resp \<Rightarrow>
             ((Some \<lparr>Status = resp_Status resp, Result = [],
                     ExecutionTime = resp_ExecutionTime resp,
                     ErrorMessage = resp_ErrorMessage resp\<rparr>, None), req))"

section \<open>Concrete inputs\<close>

text \<open>
  To run the model on concrete inputs the arguments that stand for Go's JSON library
  need values.  \<open>jid_marshal\<close> encodes a job by its identifier and retry count, and
  \<open>jid_unmarshal\<close> reads a payload as the identifier of a job on the queue
  \<open>default\<close>.  They are used in the examples only; every general theorem holds for
  all encoders and decoders.
\<close>

definition example_job :: "string \<Rightarrow> SidekiqJob" where
  "example_job jid =
     \<lparr>Class = ''HardWorkJob'', Args = [JString ''User'', JNumber (Finite False ''2'' 1)], JID = jid,
      Queue = ''default'', CreatedAt = 0, EnqueuedAt = 0, Retry = 0, FailedAt = 0,
      ErrorMsg = [], ErrorClass = []\<rparr>"

definition jid_marshal :: "SidekiqJob \<Rightarrow> string option" where
  "jid_marshal j = Some (JID j @ (if Retry j = 0 then [] else ''+retry''))"

definition jid_unmarshal :: "string \<Rightarrow> SidekiqJob option" where
  "jid_unmarshal s = (if s = [] then None else Some (example_job s))"

text \<open>
  Two executors: one whose call fails in transport, one whose result reports a
  failure of the job.  \<open>no_reply\<close> is a remote procedure that fails.
\<close>

definition refusing_executor :: "SidekiqJob \<Rightarrow> JobResult option \<times> string option" where
  "refusing_executor job = (None, Some ''connection refused'')"

definition failure_executor :: "SidekiqJob \<Rightarrow> JobResult option \<times> string option" where
  "failure_executor job =
     (Some \<lparr>Status = ''failure'', Result = [], ExecutionTime = 0, ErrorMessage = ''boom''\<rparr>,
      None)"

definition no_reply :: "JobRequest \<Rightarrow> JobResponse option" where
  "no_reply req = None"

text \<open>
  A dead set at its cap: 10000 entries with the scores 0 to 9999, and a store that
  holds it.
\<close>

definition full_dead :: "(real \<times> string) list" where
  "full_dead = map (\<lambda>i. (real i, replicate (Suc i) CHR ''x'')) [0..<10000]"

definition full_dead_store :: redis where
  "full_dead_store = empty_redis\<lparr>zsets := (zsets empty_redis)(''dead'' := full_dead)\<rparr>"

chapter \<open>Properties\<close>

section \<open>The semaphore\<close>







section \<open>The processing task\<close>

lemma executeJob_transport_failure:
  "executor job = (r, Some e) \<Longrightarrow>
   executeJob executor start stop job =
     ([LogStarting (JID job) (Class job),
       LogFailedError (JID job) (Class job) e (time_Since stop start)], None)"
  by (simp add: executeJob_def Let_def)

lemma executeJob_reported_failure:
  "executor job = (Some r, None) \<Longrightarrow> Status r \<noteq> ''success'' \<Longrightarrow>
   executeJob executor start stop job =
     ([LogStarting (JID job) (Class job),
       LogFailedStatus (JID job) (Class job) (ErrorMessage r) (time_Since stop start)], None)"
  by (simp add: executeJob_def Let_def)

lemma run_task_conn:
  "run_task executor start stop job w = Inr w' \<Longrightarrow>
   conn w' = conn w \<and> logs w' = logs w @ fst (executeJob executor start stop job)"
  by (auto simp: run_task_def Let_def split: prod.splits sum.splits option.splits if_splits)

lemma run_task_returns:
  assumes "snd (executeJob executor start stop job) = None"
    "sem_inv (semaphore (processor w))" "0 < active (semaphore (processor w))"
    "0 < cp_wg (processor w)"
  shows "\<exists>s. Release (semaphore (processor w)) = Inr s
      \<and> active s = active (semaphore (processor w)) - 1
      \<and> run_task executor start stop job w =
          Inr (w\<lparr>logs := logs w @ fst (executeJob executor start stop job),
                 processor := (processor w)
                   \<lparr>semaphore := s, cp_wg := cp_wg (processor w) - 1,
                    tasks := remove1 job (tasks (processor w))\<rparr>\<rparr>)"
proof -
  from assms(2,3) obtain s where
    s: "Release (semaphore (processor w)) = Inr s"
       "active s = active (semaphore (processor w)) - 1"
    by (auto simp: Release_def sem_inv_def)
  obtain entries p where e: "executeJob executor start stop job = (entries, p)"
    by (cases "executeJob executor start stop job")
  with assms(1) have p: "p = None" by simp
  have "run_task executor start stop job w =
      Inr (w\<lparr>logs := logs w @ entries,
             processor := (processor w)
               \<lparr>semaphore := s, cp_wg := cp_wg (processor w) - 1,
                tasks := remove1 job (tasks (processor w))\<rparr>\<rparr>)"
    using assms(4) by (simp add: run_task_def e p s Let_def)
  with s e show ?thesis by simp
qed

lemma run_task_logged:
  assumes "executeJob executor start stop job = (entries, None)"
    "sem_inv (semaphore (processor w))" "0 < active (semaphore (processor w))"
    "0 < cp_wg (processor w)"
  shows "\<exists>w'. run_task executor start stop job w = Inr w'
      \<and> conn w' = conn w
      \<and> logs w' = logs w @ entries
      \<and> tasks (processor w') = remove1 job (tasks (processor w))
      \<and> ActiveJobs (processor w') = ActiveJobs (processor w) - 1"
proof -
  from assms(1) have n: "snd (executeJob executor start stop job) = None" by simp
  from run_task_returns [OF n assms(2,3,4)] obtain s where
    s: "active s = active (semaphore (processor w)) - 1"
       "run_task executor start stop job w =
          Inr (w\<lparr>logs := logs w @ fst (executeJob executor start stop job),
                 processor := (processor w)
                   \<lparr>semaphore := s, cp_wg := cp_wg (processor w) - 1,
                    tasks := remove1 job (tasks (processor w))\<rparr>\<rparr>)"
    by blast
  then show ?thesis
    by (simp add: assms(1) ActiveJobs_def ActiveCount_def)
qed

lemma ProcessJob_admitted:
  assumes "ProcessJob pick_send job cp = (SubmitReturned None, cp')"
    "sem_inv (semaphore cp)"
  shows "sem_inv (semaphore cp') \<and> 0 < active (semaphore cp')
       \<and> cp_wg cp' = cp_wg cp + 1 \<and> tasks cp' = tasks cp @ [job]"
  using assms
  by (auto simp: ProcessJob_def Acquire_def sem_inv_def can_send_def take_token_def
      split: if_splits)

text \<open>
  Claim C1, as the code has it.  When the executor call returns an error, or a result
  whose status is not \<open>success\<close>, \<open>executeJob\<close> writes the start and the failure to
  the log and returns.  The task that runs it, holding its token, then releases the
  token and ends: the connection to the store, and so every list and sorted set, is
  as it was before, the log has grown by the two entries, and the job is no longer
  among the tasks.  No retry is scheduled and nothing is moved to the dead set.
\<close>

theorem failed_job_is_logged_only:
  assumes "sem_inv (semaphore (processor w))" "0 < active (semaphore (processor w))"
    "0 < cp_wg (processor w)"
  shows "(\<forall>r e. executor job = (r, Some e) \<longrightarrow>
            (\<exists>w'. run_task executor start stop job w = Inr w'
               \<and> conn w' = conn w
               \<and> logs w' = logs w @
                    [LogStarting (JID job) (Class job),
                     LogFailedError (JID job) (Class job) e (time_Since stop start)]
               \<and> tasks (processor w') = remove1 job (tasks (processor w))
               \<and> ActiveJobs (processor w') = ActiveJobs (processor w) - 1))
       \<and> (\<forall>r. executor job = (Some r, None) \<and> Status r \<noteq> ''success'' \<longrightarrow>
            (\<exists>w'. run_task executor start stop job w = Inr w'
               \<and> conn w' = conn w
               \<and> logs w' = logs w @
                    [LogStarting (JID job) (Class job),
                     LogFailedStatus (JID job) (Class job) (ErrorMessage r)
                       (time_Since stop start)]
               \<and> tasks (processor w') = remove1 job (tasks (processor w))
               \<and> ActiveJobs (processor w') = ActiveJobs (processor w) - 1))"
proof (intro conjI allI impI)
  fix r e
  assume x: "executor job = (r, Some e)"
  from run_task_logged
    [OF executeJob_transport_failure [where executor = executor and job = job, OF x] assms]
  show "\<exists>w'. run_task executor start stop job w = Inr w'
      \<and> conn w' = conn w
      \<and> logs w' = logs w @
           [LogStarting (JID job) (Class job),
            LogFailedError (JID job) (Class job) e (time_Since stop start)]
      \<and> tasks (processor w') = remove1 job (tasks (processor w))
      \<and> ActiveJobs (processor w') = ActiveJobs (processor w) - 1" .
next
  fix r
  assume "executor job = (Some r, None) \<and> Status r \<noteq> ''success''"
  then have x: "executor job = (Some r, None)" and s: "Status r \<noteq> ''success''"
    by simp_all
  from run_task_logged
    [OF executeJob_reported_failure [where executor = executor and job = job, OF x s] assms]
  show "\<exists>w'. run_task executor start stop job w = Inr w'
      \<and> conn w' = conn w
      \<and> logs w' = logs w @
           [LogStarting (JID job) (Class job),
            LogFailedStatus (JID job) (Class job) (ErrorMessage r) (time_Since stop start)]
      \<and> tasks (processor w') = remove1 job (tasks (processor w))
      \<and> ActiveJobs (processor w') = ActiveJobs (processor w) - 1" .
qed

text \<open>
  The worker of the examples: an empty store, a processor of capacity 2 that has
  admitted the job \<open>j1\<close>, an empty log.
\<close>

lemma admitted_processor:
  "ProcessJob True (example_job ''j1'') (NewConcurrentProcessor 2) =
     (SubmitReturned None,
      \<lparr>semaphore = \<lparr>ch = 1, capacity = 2, active = 1, wg = 1\<rparr>, cancelled = False,
       cp_wg = 1, running = True, tasks = [example_job ''j1'']\<rparr>)"
  by (simp add: ProcessJob_def NewConcurrentProcessor_def NewSemaphore_def Acquire_def
      can_send_def take_token_def)

theorem failed_job_is_logged_only_witness:
  "sem_inv \<lparr>ch = 1, capacity = 2, active = 1, wg = 1\<rparr>
   \<and> refusing_executor (example_job ''j1'') = (None, Some ''connection refused'')
   \<and> run_task refusing_executor 0 (3 * Second) (example_job ''j1'')
        \<lparr>conn = \<lparr>db = empty_redis, faults = []\<rparr>,
         processor = snd (ProcessJob True (example_job ''j1'') (NewConcurrentProcessor 2)),
         logs = []\<rparr>
       = Inr \<lparr>conn = \<lparr>db = empty_redis, faults = []\<rparr>,
              processor =
                \<lparr>semaphore = \<lparr>ch = 0, capacity = 2, active = 0, wg = 0\<rparr>,
                 cancelled = False, cp_wg = 0, running = True, tasks = []\<rparr>,
              logs = [LogStarting ''j1'' ''HardWorkJob'',
                      LogFailedError ''j1'' ''HardWorkJob'' ''connection refused''
                        (3 * Second)]\<rparr>
   \<and> fst (failure_executor (example_job ''j1''))
       = Some \<lparr>Status = ''failure'', Result = [], ExecutionTime = 0, ErrorMessage = ''boom''\<rparr>
   \<and> run_task failure_executor 0 (3 * Second) (example_job ''j1'')
        \<lparr>conn = \<lparr>db = empty_redis, faults = []\<rparr>,
         processor = snd (ProcessJob True (example_job ''j1'') (NewConcurrentProcessor 2)),
         logs = []\<rparr>
       = Inr \<lparr>conn = \<lparr>db = empty_redis, faults = []\<rparr>,
              processor =
                \<lparr>semaphore = \<lparr>ch = 0, capacity = 2, active = 0, wg = 0\<rparr>,
                 cancelled = False, cp_wg = 0, running = True, tasks = []\<rparr>,
              logs = [LogStarting ''j1'' ''HardWorkJob'',
                      LogFailedStatus ''j1'' ''HardWorkJob'' ''boom'' (3 * Second)]\<rparr>"
proof -
  let ?w = "\<lparr>conn = \<lparr>db = empty_redis, faults = []\<rparr>,
         processor = snd (ProcessJob True (example_job ''j1'') (NewConcurrentProcessor 2)),
         logs = []\<rparr>"
  have i: "sem_inv (semaphore (processor ?w))"
    by (simp add: admitted_processor sem_inv_def)
  have a: "0 < active (semaphore (processor ?w))"
    by (simp add: admitted_processor)
  have g: "0 < cp_wg (processor ?w)"
    by (simp add: admitted_processor)
  from failed_job_is_logged_only
    [where executor = refusing_executor and job = "example_job ''j1''" and start = 0
       and stop = "3 * Second", OF i a g]
    failed_job_is_logged_only
    [where executor = failure_executor and job = "example_job ''j1''" and start = 0
       and stop = "3 * Second", OF i a g]
  show ?thesis
    unfolding admitted_processor snd_conv
    by (simp add: refusing_executor_def failure_executor_def run_task_def executeJob_def
        Release_def time_Since_def example_job_def sem_inv_def Let_def)
qed

text \<open>
  The claim as written has every failed job scheduled for a retry or moved to the dead
  set.  The job \<open>j1\<close> was popped from the store, which is now empty, and admitted.
  Its execution fails, in transport for one executor and by a result of status
  \<open>failure\<close> for the other.  After the task has ended the sorted sets \<open>schedule\<close>
  and \<open>dead\<close> and the list \<open>queue:default\<close> are empty and no task is left: the job
  is in the log only.
\<close>

theorem failed_job_not_retried_counterexample:
  "(case run_task refusing_executor 0 (3 * Second) (example_job ''j1'')
           \<lparr>conn = \<lparr>db = empty_redis, faults = []\<rparr>,
            processor = snd (ProcessJob True (example_job ''j1'') (NewConcurrentProcessor 2)),
            logs = []\<rparr> of
      Inl p \<Rightarrow> False
    | Inr w' \<Rightarrow>
        zsets (db (conn w')) ''schedule'' = [] \<and> zsets (db (conn w')) ''dead'' = []
        \<and> lists (db (conn w')) ''queue:default'' = [] \<and> tasks (processor w') = [])
   \<and> (case run_task failure_executor 0 (3 * Second) (example_job ''j1'')
           \<lparr>conn = \<lparr>db = empty_redis, faults = []\<rparr>,
            processor = snd (ProcessJob True (example_job ''j1'') (NewConcurrentProcessor 2)),
            logs = []\<rparr> of
      Inl p \<Rightarrow> False
    | Inr w' \<Rightarrow>
        zsets (db (conn w')) ''schedule'' = [] \<and> zsets (db (conn w')) ''dead'' = []
        \<and> lists (db (conn w')) ''queue:default'' = [] \<and> tasks (processor w') = []
        \<and> logs w' = [LogStarting ''j1'' ''HardWorkJob'',
                      LogFailedStatus ''j1'' ''HardWorkJob'' ''boom'' (3 * Second)])"
  unfolding admitted_processor snd_conv
  by (simp add: refusing_executor_def failure_executor_def run_task_def
      executeJob_def Release_def time_Since_def example_job_def empty_redis_def Let_def)

section \<open>The store adapter\<close>

lemma next_fault_none: "faults c = [] \<Longrightarrow> next_fault c = (False, c)"
  by (simp add: next_fault_def)

lemma blpop_Some:
  "blpop ks r = Some (res, r') \<Longrightarrow>
     \<exists>k v vs. k \<in> set ks \<and> lists r k = v # vs \<and> res = [k, v]
        \<and> r' = r\<lparr>lists := (lists r)(k := vs)\<rparr>
        \<and> (\<forall>k' \<in> set (takeWhile (\<lambda>x. x \<noteq> k) ks). lists r k' = [])"
proof (induction ks)
  case Nil
  then show ?case by simp
next
  case (Cons a ks)
  show ?case
  proof (cases "lists r a")
    case Nil
    with Cons.prems have "blpop ks r = Some (res, r')" by simp
    from Cons.IH [OF this] obtain k v vs where
      h: "k \<in> set ks" "lists r k = v # vs" "res = [k, v]"
         "r' = r\<lparr>lists := (lists r)(k := vs)\<rparr>"
         "\<forall>k' \<in> set (takeWhile (\<lambda>x. x \<noteq> k) ks). lists r k' = []"
      by blast
    from h(2) Nil have "a \<noteq> k" by auto
    with h Nil have "k \<in> set (a # ks) \<and> lists r k = v # vs \<and> res = [k, v]
        \<and> r' = r\<lparr>lists := (lists r)(k := vs)\<rparr>
        \<and> (\<forall>k' \<in> set (takeWhile (\<lambda>x. x \<noteq> k) (a # ks)). lists r k' = [])"
      by simp
    then show ?thesis by blast
  next
    case (Cons v vs)
    with Cons.prems have "a \<in> set (a # ks) \<and> lists r a = v # vs \<and> res = [a, v]
        \<and> r' = r\<lparr>lists := (lists r)(a := vs)\<rparr>
        \<and> (\<forall>k' \<in> set (takeWhile (\<lambda>x. x \<noteq> a) (a # ks)). lists r k' = [])"
      by auto
    then show ?thesis by blast
  qed
qed

lemma PollJobs_Some:
  assumes "PollJobs unmarshal queues c = (Inr (Some j), c')"
  shows "\<exists>q\<in>set queues. \<exists>v vs. lists (db c) (queue_key q) = v # vs \<and> unmarshal v = Some j
           \<and> db c' = (db c)\<lparr>lists := (lists (db c))(queue_key q := vs)\<rparr>
           \<and> (\<forall>q' \<in> set (takeWhile (\<lambda>x. x \<noteq> queue_key q) (map queue_key queues)).
                 lists (db c) q' = [])"
proof -
  obtain f c1 where nf: "next_fault c = (f, c1)" by (cases "next_fault c")
  then have dbc1: "db c1 = db c"
    by (auto simp: next_fault_def split: list.splits)
  from assms nf obtain res r where
    b: "blpop (map queue_key queues) (db c1) = Some (res, r)" and c': "c' = c1\<lparr>db := r\<rparr>"
    and u: "unmarshal (res ! 1) = Some j"
    by (auto simp: PollJobs_def cmd_BLPop_def Let_def
        split: if_splits option.splits prod.splits sum.splits redis_error.splits)
  from blpop_Some [OF b] obtain k v vs where
    h: "k \<in> set (map queue_key queues)" "lists (db c1) k = v # vs" "res = [k, v]"
       "r = (db c1)\<lparr>lists := (lists (db c1))(k := vs)\<rparr>"
       "\<forall>k' \<in> set (takeWhile (\<lambda>x. x \<noteq> k) (map queue_key queues)). lists (db c1) k' = []"
    by blast
  from h(1) obtain q where q: "q \<in> set queues" "k = queue_key q" by auto
  from h u c' q dbc1 have "lists (db c) (queue_key q) = v # vs \<and> unmarshal v = Some j
      \<and> db c' = (db c)\<lparr>lists := (lists (db c))(queue_key q := vs)\<rparr>
      \<and> (\<forall>q' \<in> set (takeWhile (\<lambda>x. x \<noteq> queue_key q) (map queue_key queues)).
            lists (db c) q' = [])"
    by simp
  with q(1) show ?thesis by blast
qed

lemma PollJobs_head:
  assumes "faults c = []" "lists (db c) (queue_key q) = v # vs" "unmarshal v = Some j"
  shows "PollJobs unmarshal [q] c
           = (Inr (Some j), c\<lparr>db := (db c)\<lparr>lists := (lists (db c))(queue_key q := vs)\<rparr>\<rparr>)"
  using assms by (simp add: PollJobs_def cmd_BLPop_def next_fault_none)

text \<open>
  Claim C2, as the code has it.  \<open>PollJobs\<close> pops with BLPOP: every job it returns was
  the head (the left end) of the first list \<open>queue:<name>\<close>, in the order of the
  queues, that was not empty, and only that element is removed.  A producer pushes on
  the left as well, so without transport failures a queue hands back the job pushed
  last: after \<open>a\<close> and then \<open>b\<close> are pushed, the first poll returns \<open>b\<close> and the second
  returns \<open>a\<close>, and the store is then as before the pushes.
\<close>

theorem poll_pops_left_end:
  "(\<forall>j c'. PollJobs unmarshal queues c = (Inr (Some j), c') \<longrightarrow>
      (\<exists>q\<in>set queues. \<exists>v vs.
          lists (db c) (queue_key q) = v # vs \<and> unmarshal v = Some j
          \<and> db c' = (db c)\<lparr>lists := (lists (db c))(queue_key q := vs)\<rparr>
          \<and> (\<forall>q' \<in> set (takeWhile (\<lambda>x. x \<noteq> queue_key q) (map queue_key queues)).
                lists (db c) q' = [])))
   \<and> (faults c = [] \<and> unmarshal a = Some ja \<and> unmarshal b = Some jb \<longrightarrow>
        PollJobs unmarshal [q] (c\<lparr>db := lpush (queue_key q) b (lpush (queue_key q) a (db c))\<rparr>)
          = (Inr (Some jb), c\<lparr>db := lpush (queue_key q) a (db c)\<rparr>)
        \<and> PollJobs unmarshal [q] (c\<lparr>db := lpush (queue_key q) a (db c)\<rparr>)
          = (Inr (Some ja), c))"
proof (intro conjI allI impI)
  fix j c'
  assume "PollJobs unmarshal queues c = (Inr (Some j), c')"
  from PollJobs_Some [OF this]
  show "\<exists>q\<in>set queues. \<exists>v vs.
          lists (db c) (queue_key q) = v # vs \<and> unmarshal v = Some j
          \<and> db c' = (db c)\<lparr>lists := (lists (db c))(queue_key q := vs)\<rparr>
          \<and> (\<forall>q' \<in> set (takeWhile (\<lambda>x. x \<noteq> queue_key q) (map queue_key queues)).
                lists (db c) q' = [])" .
next
  assume h: "faults c = [] \<and> unmarshal a = Some ja \<and> unmarshal b = Some jb"
  then have f: "faults c = []" and ua: "unmarshal a = Some ja" and ub: "unmarshal b = Some jb"
    by simp_all
  let ?k = "queue_key q"
  let ?ca = "c\<lparr>db := lpush ?k a (db c)\<rparr>"
  let ?cb = "c\<lparr>db := lpush ?k b (lpush ?k a (db c))\<rparr>"
  have fb: "faults ?cb = []" and fa: "faults ?ca = []"
    using f by simp_all
  have lb: "lists (db ?cb) ?k = b # a # lists (db c) ?k"
    by (simp add: lpush_def)
  have la: "lists (db ?ca) ?k = a # lists (db c) ?k"
    by (simp add: lpush_def)
  from PollJobs_head [where unmarshal = unmarshal, OF fb lb ub]
  show "PollJobs unmarshal [q] ?cb = (Inr (Some jb), ?ca)"
    by (simp add: lpush_def)
  from PollJobs_head [where unmarshal = unmarshal, OF fa la ua]
  show "PollJobs unmarshal [q] ?ca = (Inr (Some ja), c)"
    by (simp add: lpush_def)
qed

text \<open>
  An instance: on an empty store \<open>a\<close> and then \<open>b\<close> are pushed to \<open>queue:default\<close>.
  Polling the queues \<open>high\<close> and \<open>default\<close> finds \<open>queue:high\<close> empty and returns
  \<open>b\<close>, the head of \<open>queue:default\<close>; the next poll returns \<open>a\<close>.
\<close>

theorem poll_pops_left_end_witness:
  "faults \<lparr>db = empty_redis, faults = []\<rparr> = []
   \<and> jid_unmarshal ''a'' = Some (example_job ''a'')
   \<and> jid_unmarshal ''b'' = Some (example_job ''b'')
   \<and> PollJobs jid_unmarshal [''default'']
        \<lparr>db = lpush ''queue:default'' ''b'' (lpush ''queue:default'' ''a'' empty_redis),
         faults = []\<rparr>
       = (Inr (Some (example_job ''b'')),
          \<lparr>db = lpush ''queue:default'' ''a'' empty_redis, faults = []\<rparr>)
   \<and> PollJobs jid_unmarshal [''default'']
        \<lparr>db = lpush ''queue:default'' ''a'' empty_redis, faults = []\<rparr>
       = (Inr (Some (example_job ''a'')), \<lparr>db = empty_redis, faults = []\<rparr>)
   \<and> PollJobs jid_unmarshal [''high'', ''default'']
        \<lparr>db = lpush ''queue:default'' ''b'' (lpush ''queue:default'' ''a'' empty_redis),
         faults = []\<rparr>
       = (Inr (Some (example_job ''b'')),
          \<lparr>db = lpush ''queue:default'' ''a'' empty_redis, faults = []\<rparr>)
   \<and> lists (lpush ''queue:default'' ''b'' (lpush ''queue:default'' ''a'' empty_redis))
        ''queue:default'' = [''b'', ''a'']"
proof -
  let ?c = "\<lparr>db = empty_redis, faults = []\<rparr>"
  let ?cab = "\<lparr>db = lpush ''queue:default'' ''b'' (lpush ''queue:default'' ''a'' empty_redis),
         faults = []\<rparr>"
  let ?ca = "\<lparr>db = lpush ''queue:default'' ''a'' empty_redis, faults = []\<rparr>"
  have p: "PollJobs jid_unmarshal [''high'', ''default''] ?cab
      = (Inr (Some (example_job ''b'')), ?ca)"
    by (simp add: PollJobs_def cmd_BLPop_def next_fault_def lpush_def empty_redis_def
        queue_key_def jid_unmarshal_def)
  from poll_pops_left_end
    [where c = ?cab and unmarshal = jid_unmarshal and queues = "[''high'', ''default'']"]
  have "\<exists>q\<in>set [''high'', ''default'']. \<exists>v vs.
      lists (db ?cab) (queue_key q) = v # vs \<and> jid_unmarshal v = Some (example_job ''b'')
      \<and> db ?ca = (db ?cab)\<lparr>lists := (lists (db ?cab))(queue_key q := vs)\<rparr>
      \<and> (\<forall>q' \<in> set (takeWhile (\<lambda>x. x \<noteq> queue_key q)
                          (map queue_key [''high'', ''default''])).
            lists (db ?cab) q' = [])"
    using p by blast
  with p show ?thesis
    using poll_pops_left_end
      [where c = ?c and unmarshal = jid_unmarshal
         and a = "''a''" and b = "''b''" and ja = "example_job ''a''"
         and jb = "example_job ''b''" and q = "''default''"]
    by (simp add: jid_unmarshal_def queue_key_def lpush_def empty_redis_def)
qed

text \<open>
  The claim as written has the jobs leave in the order of their pushes.  On an empty
  store, \<open>a\<close> and then \<open>b\<close> are pushed to \<open>queue:default\<close>: the first poll returns \<open>b\<close>
  and leaves \<open>a\<close>, the element at the right end, in the list; the second poll returns
  \<open>a\<close>.
\<close>

theorem poll_fifo_counterexample:
  "fst (PollJobs jid_unmarshal [''default'']
          \<lparr>db = lpush ''queue:default'' ''b'' (lpush ''queue:default'' ''a'' empty_redis),
           faults = []\<rparr>)
     = Inr (Some (example_job ''b''))
   \<and> lists (db (snd (PollJobs jid_unmarshal [''default'']
          \<lparr>db = lpush ''queue:default'' ''b'' (lpush ''queue:default'' ''a'' empty_redis),
           faults = []\<rparr>))) ''queue:default''
     = [''a'']
   \<and> fst (PollJobs jid_unmarshal [''default'']
          (snd (PollJobs jid_unmarshal [''default'']
             \<lparr>db = lpush ''queue:default'' ''b'' (lpush ''queue:default'' ''a'' empty_redis),
              faults = []\<rparr>)))
     = Inr (Some (example_job ''a''))"
  by (simp add: PollJobs_def cmd_BLPop_def next_fault_def lpush_def empty_redis_def
      queue_key_def jid_unmarshal_def)

subsection \<open>Scheduling a retry\<close>

lemma score_within_one_second:
  fixes ta tb d :: int
  assumes "Unix ta = Unix tb"
  shows "\<bar>float64 (Unix (tb + d))
           - (float64 (Unix ta) + real_of_int d / real_of_int Second)\<bar> < 1"
proof -
  let ?S = "1000000000::int"
  have u: "Unix ta = tb div ?S" using assms by (simp add: Unix_def Second_def)
  have e1: "(tb + d) div ?S * ?S + (tb + d) mod ?S = tb + d" by simp
  have e2: "tb div ?S * ?S + tb mod ?S = tb" by simp
  have b1: "0 \<le> (tb + d) mod ?S" "(tb + d) mod ?S < ?S" by simp_all
  have b2: "0 \<le> tb mod ?S" "tb mod ?S < ?S" by simp_all
  have i: "\<bar>(tb + d) div ?S * ?S - (tb div ?S * ?S + d)\<bar> < ?S"
    using e1 e2 b1 b2 by linarith
  have "real_of_int \<bar>(tb + d) div ?S * ?S - (tb div ?S * ?S + d)\<bar> < real_of_int ?S"
    using i by (simp only: of_int_less_iff)
  then have "\<bar>real_of_int ((tb + d) div ?S) * 1000000000
       - (real_of_int (tb div ?S) * 1000000000 + real_of_int d)\<bar> < 1000000000"
    by simp
  then show ?thesis
    unfolding float64_def u unfolding Unix_def Second_def
    by (simp add: field_simps abs_less_iff)
qed

lemma score_drift:
  fixes ta tb d :: int
  shows "\<bar>float64 (Unix (tb + d))
           - (float64 (Unix ta) + real_of_int d / real_of_int Second)
           - real_of_int (tb - ta) / real_of_int Second\<bar> < 1"
proof -
  let ?S = "1000000000::int"
  have e1: "(tb + d) div ?S * ?S + (tb + d) mod ?S = tb + d" by simp
  have e2: "ta div ?S * ?S + ta mod ?S = ta" by simp
  have b1: "0 \<le> (tb + d) mod ?S" "(tb + d) mod ?S < ?S" by simp_all
  have b2: "0 \<le> ta mod ?S" "ta mod ?S < ?S" by simp_all
  have i: "\<bar>(tb + d) div ?S * ?S - (ta div ?S * ?S + d) - (tb - ta)\<bar> < ?S"
    using e1 e2 b1 b2 by linarith
  have "real_of_int \<bar>(tb + d) div ?S * ?S - (ta div ?S * ?S + d) - (tb - ta)\<bar>
      < real_of_int ?S"
    using i by (simp only: of_int_less_iff)
  then have "\<bar>real_of_int ((tb + d) div ?S) * 1000000000
       - (real_of_int (ta div ?S) * 1000000000 + real_of_int d)
       - (real_of_int tb - real_of_int ta)\<bar> < 1000000000"
    by simp
  then show ?thesis
    unfolding float64_def Unix_def Second_def
    by (simp add: field_simps abs_less_iff)
qed

lemma zadd_entries_member: "(sc, m) \<in> set (zadd_entries sc m zs)"
  by (simp add: zadd_entries_def set_insort_key)

lemma EnqueueRetry_delayed:
  assumes "faults c = []"
    "marshal (job\<lparr>FailedAt := float64 (Unix ta), Retry := Retry job + 1\<rparr>) = Some js"
    "0 < delay"
  shows "EnqueueRetry marshal ta tb job delay c =
     (None, job\<lparr>FailedAt := float64 (Unix ta), Retry := Retry job + 1\<rparr>,
      c\<lparr>db := zadd ''schedule'' (float64 (Unix (tb + delay))) js (db c)\<rparr>)"
  using assms
  by (simp add: EnqueueRetry_def Let_def cmd_ZAdd_def next_fault_none time_Add_def)

lemma EnqueueRetry_immediate:
  assumes "faults c = []"
    "marshal (job\<lparr>FailedAt := float64 (Unix ta), Retry := Retry job + 1\<rparr>) = Some js"
    "delay \<le> 0"
  shows "EnqueueRetry marshal ta tb job delay c =
     (None, job\<lparr>FailedAt := float64 (Unix ta), Retry := Retry job + 1\<rparr>,
      c\<lparr>db := lpush (queue_key (Queue job)) js (db c)\<rparr>)"
  using assms
  by (simp add: EnqueueRetry_def Let_def cmd_LPush_def next_fault_none)

lemma EnqueueRetry_job:
  "fst (snd (EnqueueRetry marshal ta tb job delay c))
     = job\<lparr>FailedAt := float64 (Unix ta), Retry := Retry job + 1\<rparr>"
  by (simp add: EnqueueRetry_def Let_def split: option.splits prod.splits)

text \<open>
  Claim C5, as the code has it.  \<open>EnqueueRetry\<close> always leaves the record with
  \<open>retry\<close> one higher and \<open>failed_at\<close> the epoch second of the first reading \<open>ta\<close> of
  the clock, and it is this record that is encoded.  When the encoding \<open>js\<close> exists
  and the command does not fail in transport: for a delay above 0 the only effect on
  the store is that \<open>js\<close> is added to the sorted set \<open>schedule\<close> with the score
  \<open>now + delay\<close> in whole epoch seconds, \<open>now\<close> being the second reading \<open>tb\<close> of the
  clock; otherwise the only effect is that \<open>js\<close> is pushed on the left of
  \<open>queue:<job.queue>\<close>.  The score differs from \<open>failed_at + delay\<close> by the time
  between the two readings, up to less than one second; the difference is below one
  second when both readings fall in the same second.
\<close>

theorem schedule_retry_effect:
  "fst (snd (EnqueueRetry marshal ta tb job delay c))
     = job\<lparr>FailedAt := float64 (Unix ta), Retry := Retry job + 1\<rparr>
   \<and> (faults c = []
        \<and> marshal (job\<lparr>FailedAt := float64 (Unix ta), Retry := Retry job + 1\<rparr>) = Some js
        \<and> 0 < delay \<longrightarrow>
          EnqueueRetry marshal ta tb job delay c
            = (None, job\<lparr>FailedAt := float64 (Unix ta), Retry := Retry job + 1\<rparr>,
               c\<lparr>db := zadd ''schedule'' (float64 (Unix (tb + delay))) js (db c)\<rparr>)
          \<and> (float64 (Unix (tb + delay)), js)
              \<in> set (zsets (zadd ''schedule'' (float64 (Unix (tb + delay))) js (db c))
                      ''schedule'')
          \<and> lists (zadd ''schedule'' (float64 (Unix (tb + delay))) js (db c)) = lists (db c)
          \<and> \<bar>float64 (Unix (tb + delay))
                - (FailedAt (fst (snd (EnqueueRetry marshal ta tb job delay c)))
                   + real_of_int delay / real_of_int Second)
                - real_of_int (tb - ta) / real_of_int Second\<bar> < 1
          \<and> (Unix ta = Unix tb \<longrightarrow>
               \<bar>float64 (Unix (tb + delay))
                  - (FailedAt (fst (snd (EnqueueRetry marshal ta tb job delay c)))
                     + real_of_int delay / real_of_int Second)\<bar> < 1))
   \<and> (faults c = []
        \<and> marshal (job\<lparr>FailedAt := float64 (Unix ta), Retry := Retry job + 1\<rparr>) = Some js
        \<and> delay \<le> 0 \<longrightarrow>
          EnqueueRetry marshal ta tb job delay c
            = (None, job\<lparr>FailedAt := float64 (Unix ta), Retry := Retry job + 1\<rparr>,
               c\<lparr>db := lpush (queue_key (Queue job)) js (db c)\<rparr>)
          \<and> lists (lpush (queue_key (Queue job)) js (db c)) (queue_key (Queue job))
              = js # lists (db c) (queue_key (Queue job))
          \<and> zsets (lpush (queue_key (Queue job)) js (db c)) = zsets (db c))"
proof (intro conjI impI)
  show "fst (snd (EnqueueRetry marshal ta tb job delay c))
     = job\<lparr>FailedAt := float64 (Unix ta), Retry := Retry job + 1\<rparr>"
    by (rule EnqueueRetry_job)
next
  assume "faults c = []
        \<and> marshal (job\<lparr>FailedAt := float64 (Unix ta), Retry := Retry job + 1\<rparr>) = Some js
        \<and> 0 < delay"
  then show "EnqueueRetry marshal ta tb job delay c
            = (None, job\<lparr>FailedAt := float64 (Unix ta), Retry := Retry job + 1\<rparr>,
               c\<lparr>db := zadd ''schedule'' (float64 (Unix (tb + delay))) js (db c)\<rparr>)"
    by (intro EnqueueRetry_delayed) simp_all
next
  show "(float64 (Unix (tb + delay)), js)
      \<in> set (zsets (zadd ''schedule'' (float64 (Unix (tb + delay))) js (db c)) ''schedule'')"
    by (simp add: zadd_def zadd_entries_member)
next
  show "lists (zadd ''schedule'' (float64 (Unix (tb + delay))) js (db c)) = lists (db c)"
    by (simp add: zadd_def)
next
  show "\<bar>float64 (Unix (tb + delay))
          - (FailedAt (fst (snd (EnqueueRetry marshal ta tb job delay c)))
             + real_of_int delay / real_of_int Second)
          - real_of_int (tb - ta) / real_of_int Second\<bar> < 1"
    unfolding EnqueueRetry_job using score_drift [of tb delay ta] by simp
next
  assume "Unix ta = Unix tb"
  then show "\<bar>float64 (Unix (tb + delay))
       - (FailedAt (fst (snd (EnqueueRetry marshal ta tb job delay c)))
          + real_of_int delay / real_of_int Second)\<bar> < 1"
    unfolding EnqueueRetry_job using score_within_one_second [of ta tb delay] by simp
next
  assume "faults c = []
        \<and> marshal (job\<lparr>FailedAt := float64 (Unix ta), Retry := Retry job + 1\<rparr>) = Some js
        \<and> delay \<le> 0"
  then show "EnqueueRetry marshal ta tb job delay c
            = (None, job\<lparr>FailedAt := float64 (Unix ta), Retry := Retry job + 1\<rparr>,
               c\<lparr>db := lpush (queue_key (Queue job)) js (db c)\<rparr>)"
    by (intro EnqueueRetry_immediate) simp_all
next
  show "lists (lpush (queue_key (Queue job)) js (db c)) (queue_key (Queue job))
      = js # lists (db c) (queue_key (Queue job))"
    by (simp add: lpush_def)
next
  show "zsets (lpush (queue_key (Queue job)) js (db c)) = zsets (db c)"
    by (simp add: lpush_def)
qed

text \<open>
  An instance: at 100.2 s and 100.3 s after the epoch a job with \<open>retry = 0\<close> is
  scheduled with a delay of 15.9 s.  The record gets \<open>retry = 1\<close> and
  \<open>failed_at = 100\<close>; the entry has the score 116, which is 0.1 s from
  \<open>failed_at + delay\<close>.  With the delay 0 the payload is pushed on \<open>queue:default\<close>.
\<close>

theorem schedule_retry_effect_witness:
  "faults \<lparr>db = empty_redis, faults = []\<rparr> = []
   \<and> jid_marshal ((example_job ''j1'')\<lparr>FailedAt := 100, Retry := 1\<rparr>) = Some ''j1+retry''
   \<and> Unix 100200000000 = Unix 100300000000
   \<and> EnqueueRetry jid_marshal 100200000000 100300000000 (example_job ''j1'') 15900000000
        \<lparr>db = empty_redis, faults = []\<rparr>
       = (None, (example_job ''j1'')\<lparr>FailedAt := 100, Retry := 1\<rparr>,
          \<lparr>db = zadd ''schedule'' 116 ''j1+retry'' empty_redis, faults = []\<rparr>)
   \<and> zsets (zadd ''schedule'' 116 ''j1+retry'' empty_redis) ''schedule'' = [(116, ''j1+retry'')]
   \<and> \<bar>116 - (100 + 15900000000 / real_of_int Second)\<bar> < (1 :: real)
   \<and> EnqueueRetry jid_marshal 100200000000 100300000000 (example_job ''j1'') 0
        \<lparr>db = empty_redis, faults = []\<rparr>
       = (None, (example_job ''j1'')\<lparr>FailedAt := 100, Retry := 1\<rparr>,
          \<lparr>db = lpush ''queue:default'' ''j1+retry'' empty_redis, faults = []\<rparr>)"
  using schedule_retry_effect
    [where c = "\<lparr>db = empty_redis, faults = []\<rparr>" and marshal = jid_marshal
       and job = "example_job ''j1''" and ta = 100200000000 and tb = 100300000000
       and delay = 15900000000 and js = "''j1+retry''"]
    schedule_retry_effect
    [where c = "\<lparr>db = empty_redis, faults = []\<rparr>" and marshal = jid_marshal
       and job = "example_job ''j1''" and ta = 100200000000 and tb = 100300000000
       and delay = 0 and js = "''j1+retry''"]
  by (simp add: jid_marshal_def example_job_def Unix_def Second_def float64_def
      queue_key_def zadd_def zadd_entries_def empty_redis_def)

text \<open>
  The bound of one second fails when a second begins between the two readings of the
  clock: read at 0.999999999 s and at 1.000000001 s, with a delay of 0.999999999 s,
  the record gets \<open>failed_at = 0\<close> and the entry the score 2, which is
  1.000000001 s above \<open>failed_at + delay\<close>.
\<close>

theorem schedule_retry_bound_counterexample:
  "EnqueueRetry jid_marshal 999999999 1000000001 (example_job ''j1'') 999999999
        \<lparr>db = empty_redis, faults = []\<rparr>
       = (None, (example_job ''j1'')\<lparr>FailedAt := 0, Retry := 1\<rparr>,
          \<lparr>db = zadd ''schedule'' 2 ''j1+retry'' empty_redis, faults = []\<rparr>)
   \<and> zsets (zadd ''schedule'' 2 ''j1+retry'' empty_redis) ''schedule'' = [(2, ''j1+retry'')]
   \<and> 1 < \<bar>2 - (FailedAt ((example_job ''j1'')\<lparr>FailedAt := 0, Retry := 1\<rparr>)
                + 999999999 / real_of_int Second)\<bar>"
  by (simp add: EnqueueRetry_def Let_def cmd_ZAdd_def next_fault_def time_Add_def
      jid_marshal_def example_job_def Unix_def Second_def float64_def
      zadd_def zadd_entries_def empty_redis_def)

subsection \<open>Moving a job to the dead set\<close>

lemma distinct_snd_insort:
  "distinct (map snd (insort x xs)) \<longleftrightarrow> snd x \<notin> snd ` set xs \<and> distinct (map snd xs)"
  by (induction xs) (auto simp: set_insort_key)

lemma zset_ok_zadd_entries: "zset_ok zs \<Longrightarrow> zset_ok (zadd_entries sc m zs)"
  by (auto simp: zset_ok_def zadd_entries_def distinct_snd_insort sorted_insort
      distinct_map_filter sorted_wrt_filter)

lemma zset_ok_drop: "zset_ok zs \<Longrightarrow> zset_ok (drop n zs)"
  by (simp add: zset_ok_def sorted_wrt_drop drop_map [symmetric])

lemma zset_ok_take: "zset_ok zs \<Longrightarrow> zset_ok (take n zs)"
  by (simp add: zset_ok_def sorted_wrt_take take_map [symmetric])

lemma zset_ok_take_drop:
  assumes "zset_ok zs" "a \<le> b"
  shows "zset_ok (take a zs @ drop b zs)"
proof -
  have sub: "set (drop b zs) \<subseteq> set (drop a zs)"
    using assms(2) by (rule set_drop_subset_set_drop)
  have s: "sorted (take a zs @ drop a zs)"
    using assms(1) by (simp add: zset_ok_def)
  then have le: "\<forall>x\<in>set (take a zs). \<forall>y\<in>set (drop a zs). x \<le> y"
    by (simp only: sorted_append) blast
  from assms(1) have "sorted (take a zs)" "sorted (drop b zs)"
    by (simp_all add: zset_ok_def sorted_wrt_take sorted_wrt_drop)
  with le sub have 1: "sorted (take a zs @ drop b zs)"
    by (auto simp: sorted_append)
  have "map snd (take a zs) @ map snd (drop a zs) = map snd zs"
    by (metis append_take_drop_id map_append)
  with assms(1) have "distinct (map snd (take a zs) @ map snd (drop a zs))"
    by (simp add: zset_ok_def)
  then have dj: "snd ` set (take a zs) \<inter> snd ` set (drop a zs) = {}"
    by (simp only: distinct_append set_map)
  from assms(1) have "distinct (map snd (take a zs))" "distinct (map snd (drop b zs))"
    by (simp_all add: zset_ok_def take_map [symmetric] drop_map [symmetric])
  with dj sub have 2: "distinct (map snd (take a zs @ drop b zs))"
    by auto
  from 1 2 show ?thesis by (simp add: zset_ok_def)
qed

lemma zset_ok_if_take_drop:
  "zset_ok zs \<Longrightarrow> (\<not> c \<Longrightarrow> a \<le> b)
   \<Longrightarrow> zset_ok (if c then zs else take a zs @ drop b zs)"
  by (simp add: zset_ok_take_drop)

lemma zset_ok_zremrangebyrank_entries:
  assumes "zset_ok zs"
  shows "zset_ok (zremrangebyrank_entries start stop zs)"
  unfolding zremrangebyrank_entries_def Let_def
  by (rule zset_ok_if_take_drop [OF assms]) (auto split: if_splits)

lemma zset_ok_empty: "zset_ok (zsets empty_redis k)"
  by (simp add: zset_ok_def empty_redis_def)

lemma zremrangebyrank_keeps_last:
  assumes "0 < n"
  shows "zremrangebyrank_entries 0 (- (int n + 1)) zs = drop (length zs - n) zs"
proof (cases "length zs \<le> n")
  case True
  then show ?thesis by (simp add: zremrangebyrank_entries_def Let_def)
next
  case False
  then have "Suc (nat (int (length zs) + (- int n - 1))) = length zs - n" by linarith
  with False show ?thesis by (simp add: zremrangebyrank_entries_def Let_def)
qed

lemma trim_dead_entries:
  "zremrangebyrank_entries 0 (- 10001) zs = drop (length zs - 10000) zs"
  using zremrangebyrank_keeps_last [of 10000 zs] by simp

lemma dropped_below_kept:
  assumes "sorted (zs :: (real \<times> string) list)" "e \<in> set zs" "e \<notin> set (drop n zs)"
    "k \<in> set (drop n zs)"
  shows "fst e \<le> fst k"
proof -
  have "sorted (take n zs @ drop n zs)" using assms(1) by simp
  then have le: "\<forall>x\<in>set (take n zs). \<forall>y\<in>set (drop n zs). x \<le> y"
    by (simp only: sorted_append) blast
  have "set zs = set (take n zs) \<union> set (drop n zs)"
    by (metis append_take_drop_id set_append)
  with assms(2,3) have "e \<in> set (take n zs)" by blast
  with le assms(4) have "e \<le> k" by blast
  then show ?thesis by (auto simp: less_eq_prod_def)
qed

lemma MoveToDLQ_ok:
  assumes "faults c = []" "marshal (job\<lparr>FailedAt := float64 (Unix ta)\<rparr>) = Some js"
  shows "MoveToDLQ marshal ta tb job c =
     (None, job\<lparr>FailedAt := float64 (Unix ta)\<rparr>,
      c\<lparr>db := zremrangebyrank ''dead'' 0 (- 10001)
                 (zadd ''dead'' (float64 (Unix tb)) js (db c))\<rparr>,
      False)"
  using assms
  by (simp add: MoveToDLQ_def Let_def cmd_ZAdd_def cmd_ZRemRangeByRank_def next_fault_none)

lemma Unix_same_second:
  assumes "ta \<le> tb" "tb - ta < Second - ta mod Second"
  shows "Unix tb = Unix ta"
proof -
  let ?S = "1000000000::int"
  define r where "r = ta mod ?S + (tb - ta)"
  have r: "0 \<le> r" "r < ?S" using assms by (simp_all add: r_def Second_def)
  have "tb = r + ta div ?S * ?S" by (simp add: r_def)
  then have "tb div ?S = (r + ta div ?S * ?S) div ?S" by simp
  also have "\<dots> = r div ?S + ta div ?S" by simp
  also have "r div ?S = 0" using r by (simp add: div_pos_pos_trivial)
  finally show ?thesis by (simp add: Unix_def Second_def)
qed

lemma Unix_next_second:
  assumes "Second - ta mod Second \<le> tb - ta"
  shows "Unix ta < Unix tb"
proof -
  let ?S = "1000000000::int"
  have e: "ta div ?S * ?S + ta mod ?S = ta" by simp
  have a: "?S - ta mod ?S \<le> tb - ta" using assms by (simp add: Second_def)
  have "ta div ?S * ?S + ?S \<le> tb"
    using e a by linarith
  then have "(ta div ?S + 1) * ?S \<le> tb"
    by (simp add: algebra_simps)
  then have "((ta div ?S + 1) * ?S) div ?S \<le> tb div ?S"
    by (intro zdiv_mono1) simp_all
  then show ?thesis by (simp add: Unix_def Second_def)
qed

lemma Unix_drift:
  "\<bar>float64 (Unix tb) - float64 (Unix ta) - real_of_int (tb - ta) / real_of_int Second\<bar> < 1"
  using score_drift [of tb 0 ta] by simp

lemma MoveToDLQ_job:
  "fst (snd (MoveToDLQ marshal ta tb job c)) = job\<lparr>FailedAt := float64 (Unix ta)\<rparr>"
  by (simp add: MoveToDLQ_def Let_def split: option.splits prod.splits)

lemma MoveToDLQ_trim_failed:
  assumes "faults c = False # True # fs" "marshal (job\<lparr>FailedAt := float64 (Unix ta)\<rparr>) = Some js"
  shows "MoveToDLQ marshal ta tb job c =
     (None, job\<lparr>FailedAt := float64 (Unix ta)\<rparr>,
      c\<lparr>db := zadd ''dead'' (float64 (Unix tb)) js (db c), faults := fs\<rparr>, True)"
  using assms
  by (simp add: MoveToDLQ_def Let_def cmd_ZAdd_def cmd_ZRemRangeByRank_def next_fault_def)

lemma MoveToDLQ_add_failed:
  assumes "faults c = True # fs" "marshal (job\<lparr>FailedAt := float64 (Unix ta)\<rparr>) = Some js"
  shows "MoveToDLQ marshal ta tb job c =
     (Some MoveToDeadFailed, job\<lparr>FailedAt := float64 (Unix ta)\<rparr>, c\<lparr>faults := fs\<rparr>, False)"
  using assms
  by (simp add: MoveToDLQ_def Let_def cmd_ZAdd_def next_fault_def)

lemma length_zadd_entries_new:
  "m \<notin> snd ` set zs \<Longrightarrow> length (zadd_entries sc m zs) = Suc (length zs)"
proof -
  assume "m \<notin> snd ` set zs"
  then have "filter (\<lambda>e. snd e \<noteq> m) zs = zs" by (auto simp: filter_id_conv)
  then show ?thesis by (simp add: zadd_entries_def)
qed

lemma length_full_dead: "length full_dead = 10000"
  by (simp add: full_dead_def)

lemma full_dead_members: "''j9'' \<notin> snd ` set full_dead"
  by (auto simp: full_dead_def)

lemma zset_ok_full_dead: "zset_ok full_dead"
proof -
  have "sorted_wrt (\<lambda>i j. (real i, replicate (Suc i) CHR ''x'')
                          \<le> (real j, replicate (Suc j) CHR ''x'')) [0..<10000]"
    by (rule sorted_wrt_mono_rel [OF _ sorted_wrt_upt]) (simp add: less_eq_prod_def)
  then have 1: "sorted full_dead"
    by (simp only: full_dead_def sorted_wrt_map)
  have "inj_on (\<lambda>i. replicate (Suc i) CHR ''x'') (set [0..<10000])"
    by (rule inj_onI) (metis length_replicate nat.inject)
  then have 2: "distinct (map snd full_dead)"
    by (simp add: full_dead_def distinct_map comp_def)
  from 1 2 show ?thesis by (simp add: zset_ok_def)
qed


lemma MoveToDLQ_trimmed:
  assumes "True \<notin> set (take 2 (faults c))"
    "marshal (job\<lparr>FailedAt := float64 (Unix ta)\<rparr>) = Some js"
  shows "MoveToDLQ marshal ta tb job c =
     (None, job\<lparr>FailedAt := float64 (Unix ta)\<rparr>,
      c\<lparr>db := zremrangebyrank ''dead'' 0 (- 10001)
                 (zadd ''dead'' (float64 (Unix tb)) js (db c)),
        faults := drop 2 (faults c)\<rparr>,
      False)"
proof (cases "faults c")
  case Nil
  then show ?thesis
    using assms(2)
    by (simp add: MoveToDLQ_def Let_def cmd_ZAdd_def cmd_ZRemRangeByRank_def next_fault_def)
next
  case (Cons f fs)
  note c = this
  show ?thesis
  proof (cases fs)
    case Nil
    then show ?thesis
      using assms c
      by (simp add: MoveToDLQ_def Let_def cmd_ZAdd_def cmd_ZRemRangeByRank_def next_fault_def)
  next
    case (Cons g gs)
    then show ?thesis
      using assms c
      by (simp add: MoveToDLQ_def Let_def cmd_ZAdd_def cmd_ZRemRangeByRank_def next_fault_def)
  qed
qed

text \<open>
  Claim C6, as the code has it.  Let the encoding \<open>js\<close> of the record exist and
  \<open>dead\<close> be a sorted set.  \<open>MoveToDLQ\<close> sets \<open>failed_at\<close> to the epoch second of the
  first reading \<open>ta\<close> of the clock, and adds \<open>js\<close> to \<open>dead\<close> with the epoch second of
  the second reading \<open>tb\<close> as score.  The two numbers differ by the time between the
  readings, up to less than one second: they are equal when the second reading comes
  before the next full second after the first, and the score is the higher one when
  it does not.

  When neither command fails in transport the set is then trimmed: of the entries \<open>z\<close>
  after the insertion exactly the last 10000 in rank order stay, so at most 10000
  entries are kept, nothing is removed while there are no more than 10000, the entry
  of lowest rank is the one removed when there are 10001, and every removed entry has
  a score no higher than every entry that is kept; nothing else changes in the store.
  When the trimming command fails the call still returns no error, after printing a
  warning, and \<open>dead\<close> keeps all the entries of \<open>z\<close>.  When the insertion fails the call
  returns an error and the store is as it was.
\<close>

theorem move_to_dead_effect:
  assumes "marshal (job\<lparr>FailedAt := float64 (Unix ta)\<rparr>) = Some js"
    "zset_ok (zsets (db c) ''dead'')"
  shows "\<exists>z kept.
      z = zadd_entries (float64 (Unix tb)) js (zsets (db c) ''dead'')
      \<and> kept = drop (length z - 10000) z
      \<and> fst (snd (MoveToDLQ marshal ta tb job c)) = job\<lparr>FailedAt := float64 (Unix ta)\<rparr>
      \<and> (True \<notin> set (take 2 (faults c)) \<longrightarrow>
           MoveToDLQ marshal ta tb job c =
             (None, job\<lparr>FailedAt := float64 (Unix ta)\<rparr>,
              c\<lparr>db := (db c)\<lparr>zsets := (zsets (db c))(''dead'' := kept)\<rparr>,
                faults := drop 2 (faults c)\<rparr>, False))
      \<and> (faults c = False # True # fs \<longrightarrow>
           MoveToDLQ marshal ta tb job c =
             (None, job\<lparr>FailedAt := float64 (Unix ta)\<rparr>,
              c\<lparr>db := (db c)\<lparr>zsets := (zsets (db c))(''dead'' := z)\<rparr>, faults := fs\<rparr>, True))
      \<and> (faults c = True # fs \<longrightarrow>
           MoveToDLQ marshal ta tb job c =
             (Some MoveToDeadFailed, job\<lparr>FailedAt := float64 (Unix ta)\<rparr>,
              c\<lparr>faults := fs\<rparr>, False))
      \<and> (float64 (Unix tb), js) \<in> set z
      \<and> \<bar>float64 (Unix tb) - FailedAt (fst (snd (MoveToDLQ marshal ta tb job c)))
           - real_of_int (tb - ta) / real_of_int Second\<bar> < 1
      \<and> (ta \<le> tb \<and> tb - ta < Second - ta mod Second \<longrightarrow>
           float64 (Unix tb) = FailedAt (fst (snd (MoveToDLQ marshal ta tb job c))))
      \<and> (Second - ta mod Second \<le> tb - ta \<longrightarrow>
           FailedAt (fst (snd (MoveToDLQ marshal ta tb job c))) < float64 (Unix tb))
      \<and> length kept \<le> 10000
      \<and> zset_ok z
      \<and> zset_ok kept
      \<and> (length z \<le> 10000 \<longrightarrow> kept = z)
      \<and> (length z = 10001 \<longrightarrow> kept = tl z)
      \<and> (\<forall>e\<in>set z. e \<notin> set kept \<longrightarrow> (\<forall>k\<in>set kept. fst e \<le> fst k))"
proof -
  define z where "z = zadd_entries (float64 (Unix tb)) js (zsets (db c) ''dead'')"
  define kept where "kept = drop (length z - 10000) z"
  have ok: "zset_ok z"
    unfolding z_def using assms(2) by (rule zset_ok_zadd_entries)
  have job: "fst (snd (MoveToDLQ marshal ta tb job c)) = job\<lparr>FailedAt := float64 (Unix ta)\<rparr>"
    by (rule MoveToDLQ_job)
  have run: "True \<notin> set (take 2 (faults c)) \<longrightarrow>
          MoveToDLQ marshal ta tb job c =
          (None, job\<lparr>FailedAt := float64 (Unix ta)\<rparr>,
           c\<lparr>db := (db c)\<lparr>zsets := (zsets (db c))(''dead'' := kept)\<rparr>,
             faults := drop 2 (faults c)\<rparr>, False)"
  proof
    assume f: "True \<notin> set (take 2 (faults c))"
    show "MoveToDLQ marshal ta tb job c =
          (None, job\<lparr>FailedAt := float64 (Unix ta)\<rparr>,
           c\<lparr>db := (db c)\<lparr>zsets := (zsets (db c))(''dead'' := kept)\<rparr>,
             faults := drop 2 (faults c)\<rparr>, False)"
      unfolding MoveToDLQ_trimmed [where marshal = marshal, OF f assms(1)]
      by (simp add: zremrangebyrank_def zadd_def trim_dead_entries kept_def z_def)
  qed
  have trim_failed: "faults c = False # True # fs \<longrightarrow>
           MoveToDLQ marshal ta tb job c =
             (None, job\<lparr>FailedAt := float64 (Unix ta)\<rparr>,
              c\<lparr>db := (db c)\<lparr>zsets := (zsets (db c))(''dead'' := z)\<rparr>, faults := fs\<rparr>, True)"
  proof
    assume f: "faults c = False # True # fs"
    show "MoveToDLQ marshal ta tb job c =
             (None, job\<lparr>FailedAt := float64 (Unix ta)\<rparr>,
              c\<lparr>db := (db c)\<lparr>zsets := (zsets (db c))(''dead'' := z)\<rparr>, faults := fs\<rparr>, True)"
      unfolding MoveToDLQ_trim_failed [where marshal = marshal, OF f assms(1)]
      by (simp add: zadd_def z_def)
  qed
  have add_failed: "faults c = True # fs \<longrightarrow>
           MoveToDLQ marshal ta tb job c =
             (Some MoveToDeadFailed, job\<lparr>FailedAt := float64 (Unix ta)\<rparr>,
              c\<lparr>faults := fs\<rparr>, False)"
    using MoveToDLQ_add_failed [where marshal = marshal, OF _ assms(1)] by blast
  have mem: "(float64 (Unix tb), js) \<in> set z"
    by (simp add: z_def zadd_entries_member)
  have drift: "\<bar>float64 (Unix tb) - FailedAt (fst (snd (MoveToDLQ marshal ta tb job c)))
           - real_of_int (tb - ta) / real_of_int Second\<bar> < 1"
    unfolding job using Unix_drift [of tb ta] by simp
  have same: "ta \<le> tb \<and> tb - ta < Second - ta mod Second \<longrightarrow>
           float64 (Unix tb) = FailedAt (fst (snd (MoveToDLQ marshal ta tb job c)))"
    unfolding job using Unix_same_second [of ta tb] by simp
  have later: "Second - ta mod Second \<le> tb - ta \<longrightarrow>
           FailedAt (fst (snd (MoveToDLQ marshal ta tb job c))) < float64 (Unix tb)"
    unfolding job using Unix_next_second [of ta tb] by (simp add: float64_def)
  have len: "length kept \<le> 10000"
    by (simp add: kept_def)
  have okk: "zset_ok kept"
    unfolding kept_def using ok by (rule zset_ok_drop)
  have under: "length z \<le> 10000 \<longrightarrow> kept = z"
    by (simp add: kept_def)
  have over: "length z = 10001 \<longrightarrow> kept = tl z"
    by (simp add: kept_def drop_Suc)
  have older: "\<forall>e\<in>set z. e \<notin> set kept \<longrightarrow> (\<forall>k\<in>set kept. fst e \<le> fst k)"
    unfolding kept_def using ok dropped_below_kept [of z]
    by (simp only: zset_ok_def) blast
  show ?thesis
    apply (rule exI [of _ z])
    apply (rule exI [of _ kept])
    apply (intro conjI)
    apply (rule z_def kept_def job run trim_failed add_failed mem drift same later len ok okk
        under over older)+
    done
qed


text \<open>
  Instances.  \<open>dead\<close> holds one older entry: read at 100.2 s and 100.3 s, the job is
  added with the score 100 and \<open>failed_at = 100\<close>, and nothing is trimmed; read at
  100.999999999 s and 101.000000001 s with a trimming command that fails, the job is
  added with the score 101 and \<open>failed_at = 100\<close>, and the warning is printed; with
  an insertion that fails the store is unchanged.  \<open>dead\<close> holds 10000 entries: the
  insertion makes them 10001, and 10000 are left after the call.
\<close>

theorem move_to_dead_effect_witness:
  "jid_marshal ((example_job ''j9'')\<lparr>FailedAt := 100\<rparr>) = Some ''j9''
   \<and> zset_ok (zsets (zadd ''dead'' 50 ''j0'' empty_redis) ''dead'')
   \<and> True \<notin> set (take 2 [])
   \<and> (100200000000 :: int) \<le> 100300000000
   \<and> 100300000000 - 100200000000 < Second - 100200000000 mod Second
   \<and> MoveToDLQ jid_marshal 100200000000 100300000000 (example_job ''j9'')
        \<lparr>db = zadd ''dead'' 50 ''j0'' empty_redis, faults = []\<rparr>
       = (None, (example_job ''j9'')\<lparr>FailedAt := 100\<rparr>,
          \<lparr>db = (zadd ''dead'' 50 ''j0'' empty_redis)
                  \<lparr>zsets := (zsets (zadd ''dead'' 50 ''j0'' empty_redis))
                     (''dead'' := [(50, ''j0''), (100, ''j9'')])\<rparr>,
            faults = []\<rparr>,
          False)
   \<and> Second - 100999999999 mod Second \<le> 101000000001 - 100999999999
   \<and> MoveToDLQ jid_marshal 100999999999 101000000001 (example_job ''j9'')
        \<lparr>db = zadd ''dead'' 50 ''j0'' empty_redis, faults = [False, True]\<rparr>
       = (None, (example_job ''j9'')\<lparr>FailedAt := 100\<rparr>,
          \<lparr>db = (zadd ''dead'' 50 ''j0'' empty_redis)
                  \<lparr>zsets := (zsets (zadd ''dead'' 50 ''j0'' empty_redis))
                     (''dead'' := [(50, ''j0''), (101, ''j9'')])\<rparr>,
            faults = []\<rparr>,
          True)
   \<and> MoveToDLQ jid_marshal 100200000000 100300000000 (example_job ''j9'')
        \<lparr>db = zadd ''dead'' 50 ''j0'' empty_redis, faults = [True]\<rparr>
       = (Some MoveToDeadFailed, (example_job ''j9'')\<lparr>FailedAt := 100\<rparr>,
          \<lparr>db = zadd ''dead'' 50 ''j0'' empty_redis, faults = []\<rparr>, False)
   \<and> zset_ok (zsets full_dead_store ''dead'')
   \<and> length (zadd_entries 100 ''j9'' (zsets full_dead_store ''dead'')) = 10001
   \<and> length (zsets (db (fst (snd (snd
        (MoveToDLQ jid_marshal 100200000000 100300000000 (example_job ''j9'')
           \<lparr>db = full_dead_store, faults = []\<rparr>))))) ''dead'') = 10000"
proof -
  let ?d = "zadd ''dead'' 50 ''j0'' empty_redis"
  have m: "jid_marshal ((example_job ''j9'')\<lparr>FailedAt := float64 (Unix t)\<rparr>) = Some ''j9''" for t
    by (simp add: jid_marshal_def example_job_def)
  have d: "zsets ?d ''dead'' = [(50, ''j0'')]"
    by (simp add: zadd_def zadd_entries_def empty_redis_def)
  have z: "zset_ok (zsets (db \<lparr>db = ?d, faults = fs\<rparr>) ''dead'')" for fs
    by (simp add: d zset_ok_def)
  have u: "Unix 100200000000 = 100" "Unix 100300000000 = 100" "Unix 100999999999 = 100"
    "Unix 101000000001 = 101"
    by (simp_all add: Unix_def Second_def)
  have e: "zadd_entries 100 ''j9'' [(50, ''j0'')] = [(50, ''j0''), (100, ''j9'')]"
    "zadd_entries 101 ''j9'' [(50, ''j0'')] = [(50, ''j0''), (101, ''j9'')]"
    by (simp_all add: zadd_entries_def)
  have fd: "zsets full_dead_store ''dead'' = full_dead"
    by (simp add: full_dead_store_def)
  have zf: "zset_ok (zsets (db \<lparr>db = full_dead_store, faults = []\<rparr>) ''dead'')"
    by (simp add: fd zset_ok_full_dead)
  have lf: "length (zadd_entries 100 ''j9'' full_dead) = 10001"
    by (simp add: length_zadd_entries_new full_dead_members length_full_dead)
  from move_to_dead_effect
    [where marshal = jid_marshal and job = "example_job ''j9''" and ta = 100200000000
       and tb = 100300000000 and c = "\<lparr>db = ?d, faults = []\<rparr>" and fs = "[]", OF m z]
  have 1: "MoveToDLQ jid_marshal 100200000000 100300000000 (example_job ''j9'')
        \<lparr>db = ?d, faults = []\<rparr>
      = (None, (example_job ''j9'')\<lparr>FailedAt := 100\<rparr>,
         \<lparr>db = ?d\<lparr>zsets := (zsets ?d)(''dead'' := [(50, ''j0''), (100, ''j9'')])\<rparr>,
           faults = []\<rparr>, False)"
    by (simp add: d u e float64_def)
  from move_to_dead_effect
    [where marshal = jid_marshal and job = "example_job ''j9''" and ta = 100999999999
       and tb = 101000000001 and c = "\<lparr>db = ?d, faults = [False, True]\<rparr>" and fs = "[]",
     OF m z]
  have 2: "MoveToDLQ jid_marshal 100999999999 101000000001 (example_job ''j9'')
        \<lparr>db = ?d, faults = [False, True]\<rparr>
      = (None, (example_job ''j9'')\<lparr>FailedAt := 100\<rparr>,
         \<lparr>db = ?d\<lparr>zsets := (zsets ?d)(''dead'' := [(50, ''j0''), (101, ''j9'')])\<rparr>,
           faults = []\<rparr>, True)"
    by (simp add: d u e float64_def)
  from move_to_dead_effect
    [where marshal = jid_marshal and job = "example_job ''j9''" and ta = 100200000000
       and tb = 100300000000 and c = "\<lparr>db = ?d, faults = [True]\<rparr>" and fs = "[]", OF m z]
  have 3: "MoveToDLQ jid_marshal 100200000000 100300000000 (example_job ''j9'')
        \<lparr>db = ?d, faults = [True]\<rparr>
      = (Some MoveToDeadFailed, (example_job ''j9'')\<lparr>FailedAt := 100\<rparr>,
         \<lparr>db = ?d, faults = []\<rparr>, False)"
    by (simp add: u float64_def)
  from move_to_dead_effect
    [where marshal = jid_marshal and job = "example_job ''j9''" and ta = 100200000000
       and tb = 100300000000 and c = "\<lparr>db = full_dead_store, faults = []\<rparr>" and fs = "[]",
     OF m zf]
  have 4: "length (zsets (db (fst (snd (snd
        (MoveToDLQ jid_marshal 100200000000 100300000000 (example_job ''j9'')
           \<lparr>db = full_dead_store, faults = []\<rparr>))))) ''dead'') = 10000"
    by (simp add: fd u float64_def lf)
  show ?thesis
    using 1 2 3 4 z [of "[]"] zf lf
    by (simp add: fd jid_marshal_def example_job_def Second_def)
qed

text \<open>
  The claim fails in two ways.  Read at 100.999999999 s and 101.000000001 s, the clock
  gives \<open>failed_at = 100\<close> and the score 101, which is not that same time.  And with
  10000 entries in \<open>dead\<close> and a trimming command that fails in transport, the call
  returns no error and leaves 10001 entries in \<open>dead\<close>.
\<close>

theorem move_to_dead_counterexample:
  "FailedAt (fst (snd (MoveToDLQ jid_marshal 100999999999 101000000001 (example_job ''j9'')
        \<lparr>db = empty_redis, faults = []\<rparr>))) = 100
   \<and> zsets (db (fst (snd (snd (MoveToDLQ jid_marshal 100999999999 101000000001
        (example_job ''j9'') \<lparr>db = empty_redis, faults = []\<rparr>))))) ''dead'' = [(101, ''j9'')]
   \<and> fst (MoveToDLQ jid_marshal 100200000000 100300000000 (example_job ''j9'')
        \<lparr>db = full_dead_store, faults = [False, True]\<rparr>) = None
   \<and> length (zsets (db (fst (snd (snd (MoveToDLQ jid_marshal 100200000000 100300000000
        (example_job ''j9'') \<lparr>db = full_dead_store, faults = [False, True]\<rparr>))))) ''dead'')
       = 10001"
proof -
  have m: "jid_marshal ((example_job ''j9'')\<lparr>FailedAt := float64 (Unix t)\<rparr>) = Some ''j9''" for t
    by (simp add: jid_marshal_def example_job_def)
  have u: "Unix 100200000000 = 100" "Unix 100300000000 = 100" "Unix 100999999999 = 100"
    "Unix 101000000001 = 101"
    by (simp_all add: Unix_def Second_def)
  have a: "MoveToDLQ jid_marshal 100999999999 101000000001 (example_job ''j9'')
        \<lparr>db = empty_redis, faults = []\<rparr>
      = (None, (example_job ''j9'')\<lparr>FailedAt := 100\<rparr>,
         \<lparr>db = zremrangebyrank ''dead'' 0 (- 10001) (zadd ''dead'' 101 ''j9'' empty_redis),
           faults = []\<rparr>, False)"
    using MoveToDLQ_ok [where marshal = jid_marshal and job = "example_job ''j9''"
        and ta = 100999999999 and tb = 101000000001
        and c = "\<lparr>db = empty_redis, faults = []\<rparr>", OF _ m]
    by (simp add: u float64_def)
  have b: "MoveToDLQ jid_marshal 100200000000 100300000000 (example_job ''j9'')
        \<lparr>db = full_dead_store, faults = [False, True]\<rparr>
      = (None, (example_job ''j9'')\<lparr>FailedAt := 100\<rparr>,
         \<lparr>db = zadd ''dead'' 100 ''j9'' full_dead_store, faults = []\<rparr>, True)"
    using MoveToDLQ_trim_failed [where marshal = jid_marshal and job = "example_job ''j9''"
        and ta = 100200000000 and tb = 100300000000 and fs = "[]"
        and c = "\<lparr>db = full_dead_store, faults = [False, True]\<rparr>", OF _ m]
    by (simp add: u float64_def)
  have lf: "length (zadd_entries 100 ''j9'' full_dead) = 10001"
    by (simp add: length_zadd_entries_new full_dead_members length_full_dead)
  have c: "zsets (zremrangebyrank ''dead'' 0 (- 10001) (zadd ''dead'' 101 ''j9'' empty_redis))
        ''dead'' = [(101, ''j9'')]"
    by (simp add: zremrangebyrank_def zadd_def trim_dead_entries zadd_entries_def
        empty_redis_def)
  have d: "length (zsets (zadd ''dead'' 100 ''j9'' full_dead_store) ''dead'') = 10001"
    by (simp add: zadd_def full_dead_store_def lf)
  show ?thesis
    unfolding a b by (simp add: c d)
qed

section \<open>The circuit breaker\<close>

lemma sint_succ_below:
  assumes "sint (x::64 word) < sint (m::64 word)"
  shows "sint (x + 1) = sint x + 1"
proof -
  have m: "sint m < 2 ^ 63" using sint_lt [of m] by simp
  have x: "- (2 ^ 63) \<le> sint x" using sint_ge [of x] by simp
  have "sint (x + 1) = signed_take_bit 63 (sint x + 1)"
    by (simp add: sint_word_ariths)
  also have "\<dots> = sint x + 1"
    using assms m x by (intro signed_take_bit_int_eq_self) auto
  finally show ?thesis .
qed

lemma record_failures_stays_open:
  "state cb = StateOpen \<Longrightarrow> state (record_failures ts cb) = StateOpen"
  by (induction ts arbitrary: cb) (auto simp: RecordFailure_def Let_def)

lemma record_failures_opens:
  assumes "0 \<le> sint (failures cb)" "sint (failures cb) < sint (maxFailures cb)"
    "nat (sint (maxFailures cb) - sint (failures cb)) \<le> length ts"
  shows "state (record_failures ts cb) = StateOpen"
  using assms
proof (induction ts arbitrary: cb)
  case Nil
  then show ?case by simp
next
  case (Cons t ts)
  let ?cb1 = "RecordFailure t cb"
  have f1: "sint (failures cb + 1) = sint (failures cb) + 1"
    using Cons.prems(2) by (rule sint_succ_below)
  show ?case
  proof (cases "sint (maxFailures cb) \<le> sint (failures cb + 1)")
    case True
    then have "state ?cb1 = StateOpen" by (simp add: RecordFailure_def Let_def)
    then show ?thesis by (simp add: record_failures_stays_open)
  next
    case False
    then have e: "?cb1 = cb\<lparr>failures := failures cb + 1, lastFailTime := t\<rparr>"
      by (simp add: RecordFailure_def Let_def)
    have "state (record_failures ts ?cb1) = StateOpen"
      using Cons.prems False f1 by (intro Cons.IH) (auto simp: e)
    then show ?thesis by simp
  qed
qed

lemma lastFailTime_RecordFailure: "lastFailTime (RecordFailure t cb) = t"
  by (simp add: RecordFailure_def Let_def)

lemma record_failures_lastFailTime:
  "ts \<noteq> [] \<Longrightarrow> lastFailTime (record_failures ts cb) = last ts"
proof (induction ts arbitrary: cb)
  case Nil
  then show ?case by simp
next
  case (Cons t ts)
  then show ?case
    by (cases ts) (simp_all add: lastFailTime_RecordFailure)
qed

lemma record_failures_New_opens:
  assumes "1 \<le> sint mf" "nat (sint mf) \<le> length ts"
  shows "state (record_failures ts (NewCircuitBreaker mf rt)) = StateOpen"
  using assms by (intro record_failures_opens) (simp_all add: NewCircuitBreaker_def)

text \<open>
  Claim C3, as the code has it.  The breaker has three states.  From a closed breaker
  whose count is below \<open>max_failures\<close> (a new one with \<open>max_failures \<ge> 1\<close> in
  particular), \<open>max_failures\<close> or more consecutive failures with no success in between
  leave it open, with \<open>last_fail\<close> the time of the last of them.  While it is open, a
  request asked at a time with \<open>now - last_fail \<le> reset_timeout\<close> is refused and the
  breaker stays as it is; a request asked with \<open>now - last_fail > reset_timeout\<close> is
  permitted and moves the breaker to half-open.  A success resets the count to 0 and
  closes the breaker from every state.
\<close>

theorem circuit_breaker_transitions:
  "(0 \<le> sint (failures cb) \<longrightarrow> sint (failures cb) < sint (maxFailures cb)
      \<longrightarrow> nat (sint (maxFailures cb)) \<le> length ts
      \<longrightarrow> GetState (record_failures ts cb) = StateOpen
          \<and> lastFailTime (record_failures ts cb) = last ts)
   \<and> (1 \<le> sint mf \<longrightarrow> nat (sint mf) \<le> length ts
      \<longrightarrow> GetState (record_failures ts (NewCircuitBreaker mf rt)) = StateOpen)
   \<and> (state cb = StateOpen \<longrightarrow> time_Since now (lastFailTime cb) \<le> resetTimeout cb
      \<longrightarrow> AllowRequest now cb = (False, cb))
   \<and> (state cb = StateOpen \<longrightarrow> time_Since now (lastFailTime cb) > resetTimeout cb
      \<longrightarrow> AllowRequest now cb = (True, cb\<lparr>state := StateHalfOpen\<rparr>))
   \<and> failures (RecordSuccess cb) = 0
   \<and> GetState (RecordSuccess cb) = StateClosed"
proof -
  have a: "0 \<le> sint (failures cb) \<longrightarrow> sint (failures cb) < sint (maxFailures cb)
      \<longrightarrow> nat (sint (maxFailures cb)) \<le> length ts
      \<longrightarrow> GetState (record_failures ts cb) = StateOpen
          \<and> lastFailTime (record_failures ts cb) = last ts"
  proof (intro impI)
    assume h: "0 \<le> sint (failures cb)" "sint (failures cb) < sint (maxFailures cb)"
      "nat (sint (maxFailures cb)) \<le> length ts"
    then have "nat (sint (maxFailures cb) - sint (failures cb)) \<le> length ts"
      by linarith
    with h have "state (record_failures ts cb) = StateOpen"
      by (intro record_failures_opens)
    moreover from h have "ts \<noteq> []" by auto
    ultimately show "GetState (record_failures ts cb) = StateOpen
        \<and> lastFailTime (record_failures ts cb) = last ts"
      by (simp add: GetState_def record_failures_lastFailTime)
  qed
  have b: "1 \<le> sint mf \<longrightarrow> nat (sint mf) \<le> length ts
      \<longrightarrow> GetState (record_failures ts (NewCircuitBreaker mf rt)) = StateOpen"
    by (simp add: GetState_def record_failures_New_opens)
  have c: "state cb = StateOpen \<longrightarrow> time_Since now (lastFailTime cb) \<le> resetTimeout cb
      \<longrightarrow> AllowRequest now cb = (False, cb)"
    by (simp add: AllowRequest_def)
  have d: "state cb = StateOpen \<longrightarrow> time_Since now (lastFailTime cb) > resetTimeout cb
      \<longrightarrow> AllowRequest now cb = (True, cb\<lparr>state := StateHalfOpen\<rparr>)"
    by (simp add: AllowRequest_def)
  have e: "failures (RecordSuccess cb) = 0 \<and> GetState (RecordSuccess cb) = StateClosed"
    by (simp add: RecordSuccess_def GetState_def)
  from a b c d e show ?thesis by blast
qed

text \<open>
  An instance: \<open>max_failures = 2\<close>, a reset timeout of 10 seconds, failures at 1 s
  and 2 s.  The breaker is open; a request at 12 s is refused, one a nanosecond later
  is permitted and makes the breaker half-open, and a success closes it.
\<close>

theorem circuit_breaker_transitions_witness:
  "(0::int) \<le> sint (failures (NewCircuitBreaker 2 (10 * Second)))
   \<and> sint (failures (NewCircuitBreaker 2 (10 * Second)))
       < sint (maxFailures (NewCircuitBreaker 2 (10 * Second)))
   \<and> nat (sint (maxFailures (NewCircuitBreaker 2 (10 * Second))))
       \<le> length [1 * Second, 2 * Second]
   \<and> (1::int) \<le> sint (2::64 word)
   \<and> GetState (record_failures [1 * Second, 2 * Second] (NewCircuitBreaker 2 (10 * Second)))
       = StateOpen
   \<and> lastFailTime (record_failures [1 * Second, 2 * Second] (NewCircuitBreaker 2 (10 * Second)))
       = 2 * Second
   \<and> time_Since (12 * Second) (2 * Second) \<le> 10 * Second
   \<and> AllowRequest (12 * Second)
         \<lparr>maxFailures = 2, resetTimeout = 10 * Second, failures = 2,
          lastFailTime = 2 * Second, state = StateOpen\<rparr>
       = (False,
          \<lparr>maxFailures = 2, resetTimeout = 10 * Second, failures = 2,
           lastFailTime = 2 * Second, state = StateOpen\<rparr>)
   \<and> time_Since (12 * Second + 1) (2 * Second) > 10 * Second
   \<and> AllowRequest (12 * Second + 1)
         \<lparr>maxFailures = 2, resetTimeout = 10 * Second, failures = 2,
          lastFailTime = 2 * Second, state = StateOpen\<rparr>
       = (True,
          \<lparr>maxFailures = 2, resetTimeout = 10 * Second, failures = 2,
           lastFailTime = 2 * Second, state = StateHalfOpen\<rparr>)
   \<and> RecordSuccess
         \<lparr>maxFailures = 2, resetTimeout = 10 * Second, failures = 2,
          lastFailTime = 2 * Second, state = StateHalfOpen\<rparr>
       = \<lparr>maxFailures = 2, resetTimeout = 10 * Second, failures = 0,
          lastFailTime = 2 * Second, state = StateClosed\<rparr>"
  using circuit_breaker_transitions
    [where cb = "NewCircuitBreaker 2 (10 * Second)"
       and ts = "[1 * Second, 2 * Second]" and mf = 2 and rt = "10 * Second"
       and now = "12 * Second"]
    circuit_breaker_transitions
    [where cb = "\<lparr>maxFailures = 2, resetTimeout = 10 * Second, failures = 2,
          lastFailTime = 2 * Second, state = StateOpen\<rparr>"
       and ts = "[1 * Second, 2 * Second]" and mf = 2 and rt = "10 * Second"
       and now = "12 * Second"]
    circuit_breaker_transitions
    [where cb = "\<lparr>maxFailures = 2, resetTimeout = 10 * Second, failures = 2,
          lastFailTime = 2 * Second, state = StateOpen\<rparr>"
       and ts = "[1 * Second, 2 * Second]" and mf = 2 and rt = "10 * Second"
       and now = "12 * Second + 1"]
  by (simp add: NewCircuitBreaker_def RecordFailure_def RecordSuccess_def AllowRequest_def
      GetState_def time_Since_def Second_def Let_def)

text \<open>
  The claim as written permits the request as soon as \<open>now - last_fail \<ge> reset_timeout\<close>.
  With \<open>max_failures = 2\<close> and a reset timeout of 10 seconds, two failures at time 0
  open the breaker, and a request asked exactly 10 seconds later is refused and
  leaves the breaker open.
\<close>

theorem circuit_breaker_boundary_counterexample:
  "GetState (record_failures [0, 0] (NewCircuitBreaker 2 (10 * Second))) = StateOpen
   \<and> resetTimeout (record_failures [0, 0] (NewCircuitBreaker 2 (10 * Second)))
       \<le> time_Since (10 * Second)
           (lastFailTime (record_failures [0, 0] (NewCircuitBreaker 2 (10 * Second))))
   \<and> fst (AllowRequest (10 * Second)
         (record_failures [0, 0] (NewCircuitBreaker 2 (10 * Second)))) = False
   \<and> GetState (snd (AllowRequest (10 * Second)
         (record_failures [0, 0] (NewCircuitBreaker 2 (10 * Second))))) = StateOpen"
  by (simp add: NewCircuitBreaker_def RecordFailure_def AllowRequest_def GetState_def
      time_Since_def Second_def Let_def)

section \<open>The HTTP client\<close>

declare executeWithRetry_from.simps [simp del]

lemma retry_step:
  assumes "attempt \<le> maxRetries" "retryable (outcomes attempt)"
  shows "executeWithRetry_from outcomes decode result maxRetries attempt lastErr evs =
         executeWithRetry_from outcomes decode result maxRetries (attempt + 1)
           (attempt_error_of attempt (outcomes attempt))
           ((if attempt > 0 then evs @ [Sleep (attempt * attempt * 100 * Millisecond)] else evs)
              @ [Send attempt])"
  using assms
  by (subst executeWithRetry_from.simps) (cases "outcomes attempt"; simp add: Let_def)

lemma retry_exhausted:
  "maxRetries < attempt \<Longrightarrow>
   executeWithRetry_from outcomes decode result maxRetries attempt lastErr evs =
     (Some (RequestFailedAfter (maxRetries + 1) lastErr), result, evs)"
  by (subst executeWithRetry_from.simps) simp

lemma retry_client_error:
  "attempt \<le> maxRetries \<Longrightarrow> outcomes attempt = Response code body \<Longrightarrow> 400 \<le> code
   \<Longrightarrow> code < 500 \<Longrightarrow>
   executeWithRetry_from outcomes decode result maxRetries attempt lastErr evs =
     (Some (ClientError code body), result,
      (if attempt > 0 then evs @ [Sleep (attempt * attempt * 100 * Millisecond)] else evs)
        @ [Send attempt])"
  by (subst executeWithRetry_from.simps) (simp add: Let_def)

lemma retry_decoded:
  "attempt \<le> maxRetries \<Longrightarrow> outcomes attempt = Response code body \<Longrightarrow> code < 400
   \<Longrightarrow> decode body r0 = Some r \<Longrightarrow>
   executeWithRetry_from outcomes decode (Some r0) maxRetries attempt lastErr evs =
     (None, Some r,
      (if attempt > 0 then evs @ [Sleep (attempt * attempt * 100 * Millisecond)] else evs)
        @ [Send attempt])"
  by (subst executeWithRetry_from.simps) (simp add: Let_def)

lemma attempt_cases: "0 \<le> k \<Longrightarrow> k \<le> 3 \<Longrightarrow> k = 0 \<or> k = 1 \<or> k = 2 \<or> k = (3::int)"
  by arith

lemma executeWithRetry_four_failures:
  assumes "\<forall>i\<in>{0..3}. retryable (outcomes i)"
  shows "executeWithRetry outcomes decode result 3 =
     (Some (RequestFailedAfter 4 (attempt_error_of 3 (outcomes 3))), result, four_attempts)"
proof -
  have r: "retryable (outcomes 0)" "retryable (outcomes 1)" "retryable (outcomes 2)"
    "retryable (outcomes 3)"
    using assms by simp_all
  show ?thesis
    unfolding executeWithRetry_def
    by (simp add: retry_step r retry_exhausted four_attempts_def)
qed

lemma executeWithRetry_client_error:
  assumes "0 \<le> k" "k \<le> 3" "\<forall>i. 0 \<le> i \<and> i < k \<longrightarrow> retryable (outcomes i)"
    "outcomes k = Response code body" "400 \<le> code" "code < 500"
  shows "executeWithRetry outcomes decode result 3 =
     (Some (ClientError code body), result, take (nat (2 * k + 1)) four_attempts)"
proof -
  have r: "\<And>i. 0 \<le> i \<Longrightarrow> i < k \<Longrightarrow> retryable (outcomes i)"
    using assms(3) by blast
  from attempt_cases [OF assms(1,2)] show ?thesis
  proof (elim disjE)
    assume "k = 0"
    with assms show ?thesis
      unfolding executeWithRetry_def by (simp add: retry_client_error four_attempts_def)
  next
    assume "k = 1"
    with assms r show ?thesis
      unfolding executeWithRetry_def
      by (simp add: retry_step retry_client_error four_attempts_def)
  next
    assume "k = 2"
    with assms r show ?thesis
      unfolding executeWithRetry_def
      by (simp add: retry_step retry_client_error four_attempts_def)
  next
    assume "k = 3"
    with assms r show ?thesis
      unfolding executeWithRetry_def
      by (simp add: retry_step retry_client_error four_attempts_def)
  qed
qed

lemma executeWithRetry_decoded:
  assumes "0 \<le> k" "k \<le> 3" "\<forall>i. 0 \<le> i \<and> i < k \<longrightarrow> retryable (outcomes i)"
    "outcomes k = Response code body" "code < 400" "decode body r0 = Some r"
  shows "executeWithRetry outcomes decode (Some r0) 3 =
     (None, Some r, take (nat (2 * k + 1)) four_attempts)"
proof -
  have r: "\<And>i. 0 \<le> i \<Longrightarrow> i < k \<Longrightarrow> retryable (outcomes i)"
    using assms(3) by blast
  from attempt_cases [OF assms(1,2)] show ?thesis
  proof (elim disjE)
    assume "k = 0"
    with assms show ?thesis
      unfolding executeWithRetry_def by (simp add: retry_decoded four_attempts_def)
  next
    assume "k = 1"
    with assms r show ?thesis
      unfolding executeWithRetry_def
      by (simp add: retry_step retry_decoded four_attempts_def)
  next
    assume "k = 2"
    with assms r show ?thesis
      unfolding executeWithRetry_def
      by (simp add: retry_step retry_decoded four_attempts_def)
  next
    assume "k = 3"
    with assms r show ?thesis
      unfolding executeWithRetry_def
      by (simp add: retry_step retry_decoded four_attempts_def)
  qed
qed

lemma ExecuteJob_sent:
  assumes "AllowRequest now_allow (breaker c) = (True, bk)" "marshal jobData = Some payload"
    "request_ok"
  shows "ExecuteJob marshal request_ok outcomes decode now_allow now_fail jobData c =
     (case executeWithRetry outcomes decode (Some empty_JobResult) 3 of
        (Some err, res, evs) \<Rightarrow>
          ((None, Some err), c\<lparr>breaker := RecordFailure now_fail bk\<rparr>, evs)
      | (None, res, evs) \<Rightarrow> ((res, None), c\<lparr>breaker := RecordSuccess bk\<rparr>, evs))"
  using assms by (simp add: ExecuteJob_def)

text \<open>
  Claim C4.  Take an execute request that the breaker lets through (\<open>bk\<close> is the
  breaker after it was asked), whose job encodes and whose request can be built.
  \<^item> If the four attempts 0 to 3 all end in a connection failure, an unreadable body or
    a status of 500 or more, the result is the error that the request failed after 4
    attempts, the failure is recorded in the breaker, and the client has sent four
    times and slept 100 ms, 400 ms and 900 ms before the second, third and fourth
    send.
  \<^item> If attempt \<open>k\<close> is the first that does not end so and its status is 400 to 499,
    the result is the client error, and nothing is sent after attempt \<open>k\<close>.
  \<^item> If attempt \<open>k\<close> is the first that does not end so, its status is below 400 and
    the body decodes to \<open>r\<close>, the result is \<open>r\<close> with no error, whatever the status
    field of \<open>r\<close> says, and the breaker records a success.
\<close>

theorem http_execute_retries_then_result:
  assumes "AllowRequest now_allow (breaker c) = (True, bk)" "marshal jobData = Some payload"
    "request_ok"
  shows "((\<forall>i\<in>{0..3}. retryable (outcomes i)) \<longrightarrow>
            ExecuteJob marshal request_ok outcomes decode now_allow now_fail jobData c =
              ((None, Some (RequestFailedAfter 4 (attempt_error_of 3 (outcomes 3)))),
               c\<lparr>breaker := RecordFailure now_fail bk\<rparr>, four_attempts))
       \<and> (\<forall>k code body.
            0 \<le> k \<and> k \<le> 3 \<and> (\<forall>i. 0 \<le> i \<and> i < k \<longrightarrow> retryable (outcomes i))
              \<and> outcomes k = Response code body \<and> 400 \<le> code \<and> code < 500 \<longrightarrow>
            ExecuteJob marshal request_ok outcomes decode now_allow now_fail jobData c =
              ((None, Some (ClientError code body)),
               c\<lparr>breaker := RecordFailure now_fail bk\<rparr>, take (nat (2 * k + 1)) four_attempts))
       \<and> (\<forall>k code body r.
            0 \<le> k \<and> k \<le> 3 \<and> (\<forall>i. 0 \<le> i \<and> i < k \<longrightarrow> retryable (outcomes i))
              \<and> outcomes k = Response code body \<and> code < 400
              \<and> decode body empty_JobResult = Some r \<longrightarrow>
            ExecuteJob marshal request_ok outcomes decode now_allow now_fail jobData c =
              ((Some r, None), c\<lparr>breaker := RecordSuccess bk\<rparr>,
               take (nat (2 * k + 1)) four_attempts))"
proof (intro conjI allI impI)
  note sent = ExecuteJob_sent
    [where marshal = marshal and jobData = jobData and payload = payload
       and request_ok = request_ok and now_allow = now_allow and c = c and bk = bk,
     OF assms]
  {
  assume "\<forall>i\<in>{0..3}. retryable (outcomes i)"
  then show "ExecuteJob marshal request_ok outcomes decode now_allow now_fail jobData c =
      ((None, Some (RequestFailedAfter 4 (attempt_error_of 3 (outcomes 3)))),
       c\<lparr>breaker := RecordFailure now_fail bk\<rparr>, four_attempts)"
    by (simp add: sent executeWithRetry_four_failures)
  }
  {
  fix k code body
  assume "0 \<le> k \<and> k \<le> 3 \<and> (\<forall>i. 0 \<le> i \<and> i < k \<longrightarrow> retryable (outcomes i))
      \<and> outcomes k = Response code body \<and> 400 \<le> code \<and> code < 500"
  then have "executeWithRetry outcomes decode (Some empty_JobResult) 3 =
      (Some (ClientError code body), Some empty_JobResult, take (nat (2 * k + 1)) four_attempts)"
    by (intro executeWithRetry_client_error) auto
  then show "ExecuteJob marshal request_ok outcomes decode now_allow now_fail jobData c =
      ((None, Some (ClientError code body)),
       c\<lparr>breaker := RecordFailure now_fail bk\<rparr>, take (nat (2 * k + 1)) four_attempts)"
    by (simp add: sent)
  }
  {
  fix k code body r
  assume "0 \<le> k \<and> k \<le> 3 \<and> (\<forall>i. 0 \<le> i \<and> i < k \<longrightarrow> retryable (outcomes i))
      \<and> outcomes k = Response code body \<and> code < 400
      \<and> decode body empty_JobResult = Some r"
  then have "executeWithRetry outcomes decode (Some empty_JobResult) 3 =
      (None, Some r, take (nat (2 * k + 1)) four_attempts)"
    by (intro executeWithRetry_decoded) auto
  then show "ExecuteJob marshal request_ok outcomes decode now_allow now_fail jobData c =
      ((Some r, None), c\<lparr>breaker := RecordSuccess bk\<rparr>, take (nat (2 * k + 1)) four_attempts)"
    by (simp add: sent)
  }
qed

text \<open>
  Instances, on a new client.  The connection fails, then the executor answers 503,
  then 200 with a body that decodes to a result of status \<open>failure\<close>: the client
  sends three times, sleeps 100 ms and 400 ms, and returns that result with no error.
  The executor always answers 503: four sends, the three sleeps, and the error after
  4 attempts.  The executor answers 400: one send and the client error.
\<close>

theorem http_execute_retries_then_result_witness:
  "AllowRequest 0 (breaker (NewHTTPClient ''http://sidecar''))
     = (True, NewCircuitBreaker 5 (30 * Second))
   \<and> jid_marshal (example_job ''j1'') = Some ''j1''
   \<and> ExecuteJob jid_marshal True
        (\<lambda>i. if i = 0 then DoError else if i = 1 then Response 503 ''busy''
              else Response 200 ''failure: boom'')
        (\<lambda>body r. if body = ''failure: boom''
                   then Some (r\<lparr>Status := ''failure'', ErrorMessage := ''boom''\<rparr>) else None)
        0 7 (example_job ''j1'') (NewHTTPClient ''http://sidecar'')
     = ((Some \<lparr>Status = ''failure'', Result = [], ExecutionTime = 0, ErrorMessage = ''boom''\<rparr>,
         None),
        NewHTTPClient ''http://sidecar'',
        [Send 0, Sleep (100 * Millisecond), Send 1, Sleep (400 * Millisecond), Send 2])
   \<and> ExecuteJob jid_marshal True (\<lambda>i. Response 503 ''busy'') (\<lambda>body r. None)
        0 7 (example_job ''j1'') (NewHTTPClient ''http://sidecar'')
     = ((None, Some (RequestFailedAfter 4 (ServerError 4 503 ''busy''))),
        \<lparr>baseURL = ''http://sidecar'',
         breaker = \<lparr>maxFailures = 5, resetTimeout = 30 * Second, failures = 1,
                    lastFailTime = 7, state = StateClosed\<rparr>\<rparr>,
        [Send 0, Sleep (100 * Millisecond), Send 1, Sleep (400 * Millisecond), Send 2,
         Sleep (900 * Millisecond), Send 3])
   \<and> ExecuteJob jid_marshal True (\<lambda>i. Response 400 ''bad'') (\<lambda>body r. None)
        0 7 (example_job ''j1'') (NewHTTPClient ''http://sidecar'')
     = ((None, Some (ClientError 400 ''bad'')),
        \<lparr>baseURL = ''http://sidecar'',
         breaker = \<lparr>maxFailures = 5, resetTimeout = 30 * Second, failures = 1,
                    lastFailTime = 7, state = StateClosed\<rparr>\<rparr>,
        [Send 0])"
proof -
  let ?outcomes = "\<lambda>i::int. if i = 0 then DoError else if i = 1 then Response 503 ''busy''
              else Response 200 ''failure: boom''"
  let ?decode = "\<lambda>body r. if body = ''failure: boom''
                   then Some (r\<lparr>Status := ''failure'', ErrorMessage := ''boom''\<rparr>) else None"
  let ?none = "\<lambda>(body::string) (r::JobResult). None :: JobResult option"
  have a: "AllowRequest 0 (breaker (NewHTTPClient ''http://sidecar''))
      = (True, NewCircuitBreaker 5 (30 * Second))"
    by (simp add: AllowRequest_def NewHTTPClient_def NewCircuitBreaker_def)
  have m: "jid_marshal (example_job ''j1'') = Some ''j1''"
    by (simp add: jid_marshal_def example_job_def)
  have s: "RecordSuccess (NewCircuitBreaker 5 (30 * Second)) = NewCircuitBreaker 5 (30 * Second)"
    by (simp add: RecordSuccess_def NewCircuitBreaker_def)
  have f: "RecordFailure 7 (NewCircuitBreaker 5 (30 * Second))
      = \<lparr>maxFailures = 5, resetTimeout = 30 * Second, failures = 1,
         lastFailTime = 7, state = StateClosed\<rparr>"
    by (simp add: RecordFailure_def NewCircuitBreaker_def Let_def)
  note inst = http_execute_retries_then_result
    [where marshal = jid_marshal and jobData = "example_job ''j1''" and payload = "''j1''"
       and request_ok = True and now_allow = 0 and now_fail = 7
       and c = "NewHTTPClient ''http://sidecar''"
       and bk = "NewCircuitBreaker 5 (30 * Second)", OF a m TrueI]
  from inst [where outcomes = ?outcomes and decode = ?decode]
  have one: "ExecuteJob jid_marshal True ?outcomes ?decode 0 7 (example_job ''j1'')
          (NewHTTPClient ''http://sidecar'')
        = ((Some (empty_JobResult\<lparr>Status := ''failure'', ErrorMessage := ''boom''\<rparr>), None),
           (NewHTTPClient ''http://sidecar'')
             \<lparr>breaker := RecordSuccess (NewCircuitBreaker 5 (30 * Second))\<rparr>,
           take (nat (2 * 2 + 1)) four_attempts)"
    by (elim conjE allE [where x = 2] allE [where x = 200] allE [where x = "''failure: boom''"]
        allE [where x = "empty_JobResult\<lparr>Status := ''failure'', ErrorMessage := ''boom''\<rparr>"])
       simp
  from inst [where outcomes = "\<lambda>i. Response 503 ''busy''" and decode = ?none]
  have two: "ExecuteJob jid_marshal True (\<lambda>i. Response 503 ''busy'') ?none 0 7
          (example_job ''j1'') (NewHTTPClient ''http://sidecar'')
        = ((None, Some (RequestFailedAfter 4 (ServerError 4 503 ''busy''))),
           (NewHTTPClient ''http://sidecar'')
             \<lparr>breaker := RecordFailure 7 (NewCircuitBreaker 5 (30 * Second))\<rparr>,
           four_attempts)"
    by simp
  from inst [where outcomes = "\<lambda>i. Response 400 ''bad''" and decode = ?none]
  have three: "ExecuteJob jid_marshal True (\<lambda>i. Response 400 ''bad'') ?none 0 7
          (example_job ''j1'') (NewHTTPClient ''http://sidecar'')
        = ((None, Some (ClientError 400 ''bad'')),
           (NewHTTPClient ''http://sidecar'')
             \<lparr>breaker := RecordFailure 7 (NewCircuitBreaker 5 (30 * Second))\<rparr>,
           take (nat (2 * 0 + 1)) four_attempts)"
    by (elim conjE allE [where x = 0] allE [where x = 400] allE [where x = "''bad''"]) simp
  show ?thesis
    using a m one two three
    by (simp add: s f four_attempts_def empty_JobResult_def NewHTTPClient_def)
qed

section \<open>Submission errors in the main loop\<close>

lemma ProcessJob_error:
  assumes "ProcessJob pick_send job cp = (SubmitReturned (Some e), cp1)"
  shows "cp1 = cp \<and> (e = ErrShuttingDown \<and> \<not> running cp
                     \<or> e = ErrContextCancelled \<and> running cp \<and> cancelled cp)"
  using assms
  by (auto simp: ProcessJob_def Acquire_def split: if_splits)

lemma ProcessJob_not_running:
  "\<not> running cp \<Longrightarrow> ProcessJob pick_send job cp = (SubmitReturned (Some ErrShuttingDown), cp)"
  by (simp add: ProcessJob_def)

lemma PollJobs_zsets:
  "PollJobs unmarshal queues c = (res, c1) \<Longrightarrow> zsets (db c1) = zsets (db c)"
proof -
  have b: "\<And>ks r res' r'. blpop ks r = Some (res', r') \<Longrightarrow> zsets r' = zsets r"
  proof -
    fix ks r res' r'
    assume "blpop ks r = Some (res', r')"
    from blpop_Some [OF this] show "zsets r' = zsets r" by auto
  qed
  assume "PollJobs unmarshal queues c = (res, c1)"
  then show ?thesis
    by (auto simp: PollJobs_def cmd_BLPop_def next_fault_def Let_def dest: b
        split: if_splits option.splits prod.splits sum.splits redis_error.splits list.splits)
qed

text \<open>
  Claim C9.  In a turn of the main loop in which \<open>PollJobs\<close> has returned a job and
  \<open>ProcessJob\<close> returns an error, the error is that the processor is shutting down
  (it is not running) or that admission was cancelled (its context is cancelled), the
  processor is unchanged, and the whole effect of the turn is the pop and one entry
  in the log: the payload of the job left the head of its list, the sorted sets
  (\<open>schedule\<close> and \<open>dead\<close> among them) are as before the poll, no list received
  anything, and the job is not among the tasks.  The loop goes on with the next turn
  without a sleep.
\<close>

theorem submit_error_drops_polled_job:
  assumes "PollJobs unmarshal queues (conn w) = (Inr (Some job), c1)"
    "ProcessJob pick_send job (processor w) = (SubmitReturned (Some e), cp1)"
  shows "worker_iteration unmarshal queues poll_interval False pick_send w
           = LoopContinue None (w\<lparr>conn := c1, logs := logs w @ [LogSubmitError e]\<rparr>)
       \<and> cp1 = processor w
       \<and> (e = ErrShuttingDown \<and> \<not> running (processor w)
          \<or> e = ErrContextCancelled \<and> running (processor w) \<and> cancelled (processor w))
       \<and> zsets (db c1) = zsets (db (conn w))
       \<and> (\<exists>q\<in>set queues. \<exists>v vs.
             lists (db (conn w)) (queue_key q) = v # vs \<and> unmarshal v = Some job
             \<and> lists (db c1) = (lists (db (conn w)))(queue_key q := vs))"
proof -
  from ProcessJob_error [OF assms(2)] have
    cp: "cp1 = processor w" and
    e: "e = ErrShuttingDown \<and> \<not> running (processor w)
          \<or> e = ErrContextCancelled \<and> running (processor w) \<and> cancelled (processor w)"
    by simp_all
  have it: "worker_iteration unmarshal queues poll_interval False pick_send w
           = LoopContinue None (w\<lparr>conn := c1, logs := logs w @ [LogSubmitError e]\<rparr>)"
    by (simp add: worker_iteration_def assms cp)
  have z: "zsets (db c1) = zsets (db (conn w))"
    using assms(1) by (rule PollJobs_zsets)
  from PollJobs_Some [OF assms(1)] obtain q v vs where
    q: "q \<in> set queues" "lists (db (conn w)) (queue_key q) = v # vs" "unmarshal v = Some job"
       "db c1 = (db (conn w))\<lparr>lists := (lists (db (conn w)))(queue_key q := vs)\<rparr>"
    by blast
  from q(4) have "lists (db c1) = (lists (db (conn w)))(queue_key q := vs)" by simp
  with q have l: "\<exists>q\<in>set queues. \<exists>v vs.
             lists (db (conn w)) (queue_key q) = v # vs \<and> unmarshal v = Some job
             \<and> lists (db c1) = (lists (db (conn w)))(queue_key q := vs)"
    by blast
  from it cp e z l show ?thesis by blast
qed

text \<open>
  An instance: the processor has been shut down and \<open>queue:default\<close> holds the job
  \<open>j1\<close>.  The turn pops the job, \<open>ProcessJob\<close> refuses it, and afterwards the store is
  empty and the processor has no task: the job is gone.
\<close>

theorem submit_error_drops_polled_job_witness:
  "PollJobs jid_unmarshal [''default'']
       \<lparr>db = lpush ''queue:default'' ''j1'' empty_redis, faults = []\<rparr>
     = (Inr (Some (example_job ''j1'')), \<lparr>db = empty_redis, faults = []\<rparr>)
   \<and> ProcessJob True (example_job ''j1'')
        (fst (snd (Shutdown (30 * Second) True (NewConcurrentProcessor 2))))
     = (SubmitReturned (Some ErrShuttingDown),
        fst (snd (Shutdown (30 * Second) True (NewConcurrentProcessor 2))))
   \<and> worker_iteration jid_unmarshal [''default''] (200 * Millisecond) False True
        \<lparr>conn = \<lparr>db = lpush ''queue:default'' ''j1'' empty_redis, faults = []\<rparr>,
         processor = fst (snd (Shutdown (30 * Second) True (NewConcurrentProcessor 2))),
         logs = []\<rparr>
     = LoopContinue None
        \<lparr>conn = \<lparr>db = empty_redis, faults = []\<rparr>,
         processor = fst (snd (Shutdown (30 * Second) True (NewConcurrentProcessor 2))),
         logs = [LogSubmitError ErrShuttingDown]\<rparr>
   \<and> tasks (fst (snd (Shutdown (30 * Second) True (NewConcurrentProcessor 2)))) = []"
proof -
  let ?cp = "fst (snd (Shutdown (30 * Second) True (NewConcurrentProcessor 2)))"
  let ?c = "\<lparr>db = lpush ''queue:default'' ''j1'' empty_redis, faults = []\<rparr>"
  let ?w = "\<lparr>conn = ?c, processor = ?cp, logs = []\<rparr>"
  have p: "PollJobs jid_unmarshal [''default''] (conn ?w)
      = (Inr (Some (example_job ''j1'')), \<lparr>db = empty_redis, faults = []\<rparr>)"
    by (simp add: PollJobs_def cmd_BLPop_def next_fault_def lpush_def empty_redis_def
        queue_key_def jid_unmarshal_def fun_upd_idem_iff)
  have r: "\<not> running ?cp"
    by (simp add: Shutdown_def NewConcurrentProcessor_def Let_def)
  have s: "ProcessJob True (example_job ''j1'') (processor ?w)
      = (SubmitReturned (Some ErrShuttingDown), ?cp)"
    using r by (simp add: ProcessJob_not_running)
  have t: "tasks ?cp = []"
    by (simp add: Shutdown_def NewConcurrentProcessor_def Let_def)
  from submit_error_drops_polled_job
    [where unmarshal = jid_unmarshal and queues = "[''default'']" and w = ?w
       and poll_interval = "200 * Millisecond", OF p s]
  have "worker_iteration jid_unmarshal [''default''] (200 * Millisecond) False True ?w
      = LoopContinue None
          (?w\<lparr>conn := \<lparr>db = empty_redis, faults = []\<rparr>,
               logs := logs ?w @ [LogSubmitError ErrShuttingDown]\<rparr>)"
    by blast
  then show ?thesis
    using p s t by simp
qed

section \<open>Shutdown\<close>

text \<open>
  Claim C10.  A \<open>Shutdown\<close> on a processor that is not running returns \<open>nil\<close> at once:
  it changes nothing, cancels nothing and waits for nothing, whatever the timeout and
  the tasks still active.  A \<open>Shutdown\<close> on a running processor stops admission,
  cancels the context and waits for the drain, returning \<open>nil\<close> or the timeout error.
  So after any \<open>Shutdown\<close> the processor is not running and every further \<open>Shutdown\<close>
  is of the first kind: only the first call cancels and waits.
\<close>

theorem shutdown_only_first_call_acts:
  "(\<not> running cp \<longrightarrow> Shutdown timeout drained cp = (None, cp, []))
   \<and> (running cp \<longrightarrow>
        Shutdown timeout drained cp =
          (if drained then None else Some ErrShutdownTimeout,
           cp\<lparr>running := False, cancelled := True\<rparr>,
           [LogInitiating timeout, CancelContext, WaitForDrain timeout,
            if drained then LogShutdownCompleted else LogShutdownTimedOut timeout]))
   \<and> \<not> IsRunning (fst (snd (Shutdown timeout drained cp)))
   \<and> Shutdown timeout' drained' (fst (snd (Shutdown timeout drained cp)))
       = (None, fst (snd (Shutdown timeout drained cp)), [])"
  by (simp add: Shutdown_def IsRunning_def Let_def)

text \<open>
  An instance: a processor of capacity 1 with one task; the first \<open>Shutdown\<close>, with
  50 ms, times out; the second, with 30 s, returns \<open>nil\<close> at once although the task
  is still active.
\<close>

theorem shutdown_only_first_call_acts_witness:
  "running (snd (ProcessJob True (example_job ''j1'') (NewConcurrentProcessor 1)))
   \<and> Shutdown (50 * Millisecond) False
        (snd (ProcessJob True (example_job ''j1'') (NewConcurrentProcessor 1)))
     = (Some ErrShutdownTimeout,
        \<lparr>semaphore = \<lparr>ch = 1, capacity = 1, active = 1, wg = 1\<rparr>, cancelled = True,
         cp_wg = 1, running = False, tasks = [example_job ''j1'']\<rparr>,
        [LogInitiating (50 * Millisecond), CancelContext, WaitForDrain (50 * Millisecond),
         LogShutdownTimedOut (50 * Millisecond)])
   \<and> \<not> running \<lparr>semaphore = \<lparr>ch = 1, capacity = 1, active = 1, wg = 1\<rparr>,
         cancelled = True, cp_wg = 1, running = False, tasks = [example_job ''j1'']\<rparr>
   \<and> Shutdown (30 * Second) False
        \<lparr>semaphore = \<lparr>ch = 1, capacity = 1, active = 1, wg = 1\<rparr>, cancelled = True,
         cp_wg = 1, running = False, tasks = [example_job ''j1'']\<rparr>
     = (None,
        \<lparr>semaphore = \<lparr>ch = 1, capacity = 1, active = 1, wg = 1\<rparr>, cancelled = True,
         cp_wg = 1, running = False, tasks = [example_job ''j1'']\<rparr>,
        [])"
  using shutdown_only_first_call_acts
    [where cp = "snd (ProcessJob True (example_job ''j1'') (NewConcurrentProcessor 1))"
       and timeout = "50 * Millisecond" and drained = False and timeout' = "30 * Second"
       and drained' = False]
    shutdown_only_first_call_acts
    [where cp = "\<lparr>semaphore = \<lparr>ch = 1, capacity = 1, active = 1, wg = 1\<rparr>,
         cancelled = True, cp_wg = 1, running = False, tasks = [example_job ''j1'']\<rparr>"
       and timeout = "30 * Second" and drained = False and timeout' = "30 * Second"
       and drained' = False]
  by (simp add: ProcessJob_def NewConcurrentProcessor_def NewSemaphore_def Acquire_def
      can_send_def take_token_def Shutdown_def Let_def)


section \<open>Arguments on the gRPC transport\<close>

subsection \<open>Reading back the text of a number\<close>

text \<open>
  The exponent that \<open>exponent_text\<close> writes is the one \<open>read_exponent\<close> reads, and
  each layout of \<open>format_g\<close> is read by \<open>read_decimal\<close> as the sign, the digits and
  the decimal exponent it was written from.
\<close>

lemma decimal_digit_cases:
  "decimal_digit x \<longleftrightarrow> x = CHR ''0'' \<or> x = CHR ''1'' \<or> x = CHR ''2'' \<or> x = CHR ''3''
     \<or> x = CHR ''4'' \<or> x = CHR ''5'' \<or> x = CHR ''6'' \<or> x = CHR ''7'' \<or> x = CHR ''8''
     \<or> x = CHR ''9''"
  by (auto simp: decimal_digit_def)

lemma decimal_digit_not:
  "decimal_digit x \<Longrightarrow> x \<noteq> CHR ''e'' \<and> x \<noteq> CHR ''.'' \<and> x \<noteq> CHR ''-''"
  by (auto simp: decimal_digit_cases)

lemma small_cases:
  "0 \<le> n \<Longrightarrow> n < 10 \<Longrightarrow>
   n = 0 \<or> n = 1 \<or> n = 2 \<or> n = 3 \<or> n = 4 \<or> n = 5 \<or> n = 6 \<or> n = 7 \<or> n = 8 \<or> n = (9::int)"
  by arith

lemma digit_value_digit_char: "0 \<le> n \<Longrightarrow> n < 10 \<Longrightarrow> digit_value (digit_char n) = n"
  by (drule (1) small_cases) (auto simp: digit_value_def digit_char_def)

lemma digit_char_not_sign:
  "0 \<le> n \<Longrightarrow> n < 10 \<Longrightarrow> digit_char n \<noteq> CHR ''-'' \<and> digit_char n \<noteq> CHR ''+''"
  by (drule (1) small_cases) (auto simp: digit_char_def)

lemma digits_value_1:
  assumes "0 \<le> n" "n < 10"
  shows "digits_value 0 [CHR ''0'', digit_char n] = n"
proof -
  have z: "digit_value CHR ''0'' = 0" by (simp add: digit_value_def)
  show ?thesis by (simp add: z digit_value_digit_char [OF assms])
qed

lemma digits_value_2:
  assumes "10 \<le> n" "n < 100"
  shows "digits_value 0 [digit_char (n div 10), digit_char (n mod 10)] = n"
proof -
  have a: "0 \<le> n div 10" "n div 10 < 10" using assms by simp_all
  have b: "0 \<le> n mod 10" "n mod 10 < 10" by simp_all
  have "digits_value 0 [digit_char (n div 10), digit_char (n mod 10)]
      = 10 * (n div 10) + n mod 10"
    by (simp add: digit_value_digit_char [OF a] digit_value_digit_char [OF b])
  then show ?thesis by simp
qed

lemma three_digits:
  fixes n :: int
  shows "10 * (10 * (n div 100) + (n div 10) mod 10) + n mod 10 = n"
proof -
  define m where "m = n div 10"
  have 1: "n div 100 = m div 10"
    unfolding m_def using zdiv_zmult2_eq [of 10 n 10] by simp
  have 2: "10 * m + n mod 10 = n" by (simp add: m_def)
  have 3: "10 * (m div 10) + m mod 10 = m" by simp
  show ?thesis
    unfolding 1 m_def [symmetric] 3 by (rule 2)
qed

lemma digits_value_3:
  assumes "100 \<le> n" "n < 1000"
  shows "digits_value 0
     [digit_char (n div 100), digit_char ((n div 10) mod 10), digit_char (n mod 10)] = n"
proof -
  have a: "0 \<le> n div 100" "n div 100 < 10" using assms by simp_all
  have b: "0 \<le> (n div 10) mod 10" "(n div 10) mod 10 < 10" by simp_all
  have c: "0 \<le> n mod 10" "n mod 10 < 10" by simp_all
  have "digits_value 0
     [digit_char (n div 100), digit_char ((n div 10) mod 10), digit_char (n mod 10)]
      = 10 * (10 * (n div 100) + (n div 10) mod 10) + n mod 10"
    by (simp only: digits_value.simps digit_value_digit_char [OF a]
        digit_value_digit_char [OF b] digit_value_digit_char [OF c]) simp
  also have "\<dots> = n" by (rule three_digits)
  finally show ?thesis .
qed

lemma exponent_digits_value:
  assumes "0 \<le> n" "n < 1000"
  shows "digits_value 0
        (if n < 10 then [CHR ''0'', digit_char n]
         else if n < 100 then [digit_char (n div 10), digit_char (n mod 10)]
         else [digit_char (n div 100), digit_char ((n div 10) mod 10), digit_char (n mod 10)])
      = n"
proof (cases "n < 10")
  case True
  then show ?thesis
    using digits_value_1 [OF assms(1) True] by (simp only: if_True)
next
  case False
  note f1 = this
  show ?thesis
  proof (cases "n < 100")
    case True
    from f1 have "10 \<le> n" by simp
    from digits_value_2 [OF this True] show ?thesis
      using f1 True by (simp only: if_True if_False)
  next
    case False
    then have "100 \<le> n" by simp
    from digits_value_3 [OF this assms(2)] show ?thesis
      using f1 False by (simp only: if_False)
  qed
qed

lemma read_exponent_text:
  assumes "- 1000 < e" "e < 1000"
  shows "read_exponent (exponent_text e) = e"
proof (cases "e < 0")
  case True
  then have n: "0 \<le> - e" "- e < 1000" using assms by simp_all
  have "exponent_text e = CHR ''-'' #
        (if - e < 10 then [CHR ''0'', digit_char (- e)]
         else if - e < 100 then [digit_char (- e div 10), digit_char (- e mod 10)]
         else [digit_char (- e div 100), digit_char ((- e div 10) mod 10),
               digit_char (- e mod 10)])"
    using True by (simp add: exponent_text_def)
  then have "read_exponent (exponent_text e) = - digits_value 0
        (if - e < 10 then [CHR ''0'', digit_char (- e)]
         else if - e < 100 then [digit_char (- e div 10), digit_char (- e mod 10)]
         else [digit_char (- e div 100), digit_char ((- e div 10) mod 10),
               digit_char (- e mod 10)])"
    by (simp only: read_exponent_def list.case) simp
  also have "\<dots> = - (- e)"
    by (simp only: exponent_digits_value [OF n])
  finally show ?thesis by simp
next
  case False
  then have n: "0 \<le> e" using assms by simp
  have "exponent_text e = CHR ''+'' #
        (if e < 10 then [CHR ''0'', digit_char e]
         else if e < 100 then [digit_char (e div 10), digit_char (e mod 10)]
         else [digit_char (e div 100), digit_char ((e div 10) mod 10), digit_char (e mod 10)])"
    using False by (simp add: exponent_text_def)
  then have "read_exponent (exponent_text e) = digits_value 0
        (if e < 10 then [CHR ''0'', digit_char e]
         else if e < 100 then [digit_char (e div 10), digit_char (e mod 10)]
         else [digit_char (e div 100), digit_char ((e div 10) mod 10), digit_char (e mod 10)])"
    by (simp only: read_exponent_def list.case) simp
  also have "\<dots> = e"
    by (simp only: exponent_digits_value [OF n assms(2)])
  finally show ?thesis .
qed

lemma dropWhile_replicate_append: "P x \<Longrightarrow> dropWhile P (replicate n x @ ys) = dropWhile P ys"
  by (induction n) simp_all

lemma takeWhile_replicate_append:
  "P x \<Longrightarrow> takeWhile P (replicate n x @ ys) = replicate n x @ takeWhile P ys"
  by (induction n) simp_all

lemma dropWhile_hd: "ys \<noteq> [] \<Longrightarrow> \<not> P (hd ys) \<Longrightarrow> dropWhile P ys = ys"
  by (cases ys) simp_all

lemma takeWhile_hd: "ys \<noteq> [] \<Longrightarrow> \<not> P (hd ys) \<Longrightarrow> takeWhile P ys = []"
  by (cases ys) simp_all

lemma strip_zeros_padded:
  assumes "ds \<noteq> []" "hd ds \<noteq> CHR ''0''" "last ds \<noteq> CHR ''0''"
  shows "strip_zeros (replicate a CHR ''0'' @ ds @ replicate b CHR ''0'') = ds"
proof -
  have 1: "dropWhile (\<lambda>x. x = CHR ''0'') (replicate a CHR ''0'' @ ds @ replicate b CHR ''0'')
         = ds @ replicate b CHR ''0''"
    using assms by (simp add: dropWhile_replicate_append dropWhile_hd)
  have 2: "rev (ds @ replicate b CHR ''0'') = replicate b CHR ''0'' @ rev ds" by simp
  have 3: "dropWhile (\<lambda>x. x = CHR ''0'') (replicate b CHR ''0'' @ rev ds) = rev ds"
    using assms by (simp add: dropWhile_replicate_append dropWhile_hd hd_rev)
  show ?thesis unfolding strip_zeros_def 1 2 3 by simp
qed

lemma leading_zeros_padded:
  assumes "ds \<noteq> []" "hd ds \<noteq> CHR ''0''"
  shows "length (takeWhile (\<lambda>x. x = CHR ''0'') (replicate a CHR ''0'' @ ds @ ys)) = a"
  using assms by (simp add: takeWhile_replicate_append takeWhile_hd)

lemma read_decimal_layout:
  assumes ip: "ip \<noteq> []" "list_all decimal_digit ip"
    and fp: "list_all decimal_digit fp"
    and point: "point = [] \<and> fp = [] \<or> point = ''.''"
    and suffix: "suffix = [] \<or> hd suffix = CHR ''e''"
  shows "read_decimal (sign_text neg @ ip @ point @ fp @ suffix)
       = Finite neg (strip_zeros (ip @ fp))
           (if strip_zeros (ip @ fp) = [] then 0
            else int (length ip)
                 - int (length (takeWhile (\<lambda>x. x = CHR ''0'') (ip @ fp)))
                 + read_exponent (tl suffix))"
proof -
  define u where "u = ip @ point @ fp @ suffix"
  define t where "t = sign_text neg @ u"
  have hd_u: "u \<noteq> []" "hd u \<noteq> CHR ''-''"
    using ip decimal_digit_not [of "hd ip"] by (cases ip; simp add: u_def)+
  have neg: "(t \<noteq> [] \<and> hd t = CHR ''-'') = neg"
    using hd_u by (cases neg) (simp_all add: t_def sign_text_def)
  have tl: "(if neg then tl t else t) = u"
    by (cases neg) (simp_all add: t_def sign_text_def)
  have ne: "\<forall>x \<in> set (ip @ point @ fp). x \<noteq> CHR ''e''"
    using ip fp point decimal_digit_not by (auto simp: list_all_iff)
  have m: "takeWhile (\<lambda>x. x \<noteq> CHR ''e'') u = ip @ point @ fp"
  proof -
    have "takeWhile (\<lambda>x. x \<noteq> CHR ''e'') suffix = []"
      using suffix by (cases suffix) simp_all
    moreover have "u = (ip @ point @ fp) @ suffix" by (simp add: u_def)
    ultimately show ?thesis
      using ne by (simp only: takeWhile_append2) simp
  qed
  have d: "drop (length (ip @ point @ fp) + 1) u = tl suffix"
    by (simp add: u_def drop_Suc drop_tl)
  have np: "\<forall>x \<in> set ip. x \<noteq> CHR ''.''"
    using ip decimal_digit_not by (auto simp: list_all_iff)
  have i: "takeWhile (\<lambda>x. x \<noteq> CHR ''.'') (ip @ point @ fp) = ip"
  proof -
    have "takeWhile (\<lambda>x. x \<noteq> CHR ''.'') (point @ fp) = []"
      using point by (elim disjE conjE) simp_all
    then show ?thesis using np by simp
  qed
  have f: "drop (length ip + 1) (ip @ point @ fp) = fp"
    using point by (elim disjE conjE) simp_all
  show ?thesis
    unfolding read_decimal_def t_def [symmetric] u_def [symmetric]
    unfolding Let_def neg tl m d i f ..
qed

lemma fraction_digits:
  "map (\<lambda>i. let j = dp + int i in
               if 0 \<le> j \<and> j < int (length ds) then ds ! nat j else CHR ''0'')
       [0..<nat (int (length ds) - dp)]
   = (if dp \<le> 0 then replicate (nat (- dp)) CHR ''0'' @ ds else drop (nat dp) ds)"
proof (cases "dp \<le> 0")
  case True
  have "map (\<lambda>i. let j = dp + int i in
               if 0 \<le> j \<and> j < int (length ds) then ds ! nat j else CHR ''0'')
         [0..<nat (int (length ds) - dp)] = replicate (nat (- dp)) CHR ''0'' @ ds"
  proof (rule nth_equalityI)
    show "length (map (\<lambda>i. let j = dp + int i in
               if 0 \<le> j \<and> j < int (length ds) then ds ! nat j else CHR ''0'')
         [0..<nat (int (length ds) - dp)]) = length (replicate (nat (- dp)) CHR ''0'' @ ds)"
      using True by simp
  next
    fix i
    assume "i < length (map (\<lambda>i. let j = dp + int i in
               if 0 \<le> j \<and> j < int (length ds) then ds ! nat j else CHR ''0'')
         [0..<nat (int (length ds) - dp)])"
    then have i: "i < nat (int (length ds) - dp)" by simp
    have n: "nat (dp + int i) = i - nat (- dp)" using True by simp
    have l: "dp + int i < int (length ds)" using i by simp
    have z: "(0 \<le> dp + int i) = (\<not> i < nat (- dp))" using True by auto
    show "map (\<lambda>i. let j = dp + int i in
               if 0 \<le> j \<and> j < int (length ds) then ds ! nat j else CHR ''0'')
         [0..<nat (int (length ds) - dp)] ! i = (replicate (nat (- dp)) CHR ''0'' @ ds) ! i"
      using i by (simp add: nth_append Let_def n l z)
  qed
  then show ?thesis using True by simp
next
  case False
  have "map (\<lambda>i. let j = dp + int i in
               if 0 \<le> j \<and> j < int (length ds) then ds ! nat j else CHR ''0'')
         [0..<nat (int (length ds) - dp)] = drop (nat dp) ds"
  proof (rule nth_equalityI)
    show "length (map (\<lambda>i. let j = dp + int i in
               if 0 \<le> j \<and> j < int (length ds) then ds ! nat j else CHR ''0'')
         [0..<nat (int (length ds) - dp)]) = length (drop (nat dp) ds)"
      using False by simp
  next
    fix i
    assume "i < length (map (\<lambda>i. let j = dp + int i in
               if 0 \<le> j \<and> j < int (length ds) then ds ! nat j else CHR ''0'')
         [0..<nat (int (length ds) - dp)])"
    then have i: "i < nat (int (length ds) - dp)" by simp
    have n: "nat (dp + int i) = nat dp + i" using False by simp
    have l: "dp + int i < int (length ds)" "0 \<le> dp + int i" using i False by simp_all
    show "map (\<lambda>i. let j = dp + int i in
               if 0 \<le> j \<and> j < int (length ds) then ds ! nat j else CHR ''0'')
         [0..<nat (int (length ds) - dp)] ! i = drop (nat dp) ds ! i"
      using i by (simp add: Let_def n l)
  qed
  then show ?thesis using False by simp
qed

lemma format_g_zero: "format_g neg [] 0 = sign_text neg @ ''0''"
  by (simp add: format_g_def fmtF_def)

lemma format_g_exponent:
  assumes "ds \<noteq> []" "dp - 1 < - 4 \<or> 6 \<le> dp - 1"
  shows "format_g neg ds dp
       = sign_text neg @ [hd ds] @ (if tl ds = [] then [] else ''.'') @ tl ds
           @ (CHR ''e'' # exponent_text (dp - 1))"
proof -
  obtain d ds' where ds: "ds = d # ds'" using assms(1) by (cases ds) auto
  have "format_g neg ds dp = fmtE neg ds dp (int (length ds) - 1)"
    using assms(2) by (auto simp: format_g_def Let_def)
  also have "\<dots> = sign_text neg @ [hd ds] @ (if tl ds = [] then [] else ''.'') @ tl ds
           @ (CHR ''e'' # exponent_text (dp - 1))"
    unfolding ds by (cases ds') (simp_all add: fmtE_def Let_def nat_add_distrib)
  finally show ?thesis .
qed

lemma format_g_plain:
  assumes "ds \<noteq> []" "- 4 \<le> dp - 1" "dp - 1 < 6"
  shows "format_g neg ds dp
       = sign_text neg
         @ (if dp \<le> 0 then ''0'' else take (nat dp) ds @ replicate (nat dp - length ds) CHR ''0'')
         @ (if dp < int (length ds) then ''.'' else [])
         @ (if dp \<le> 0 then replicate (nat (- dp)) CHR ''0'' @ ds else drop (nat dp) ds)"
proof -
  have g: "format_g neg ds dp = fmtF neg ds dp (max (int (length ds) - dp) 0)"
    using assms(2,3) by (auto simp: format_g_def Let_def)
  show ?thesis
  proof (cases "dp < int (length ds)")
    case True
    then have p: "max (int (length ds) - dp) 0 = int (length ds) - dp" by simp
    have q: "0 < int (length ds) - dp" using True by simp
    show ?thesis
      unfolding g p fmtF_def fraction_digits using True q
      by (auto simp: min_def Let_def)
  next
    case False
    then have p: "max (int (length ds) - dp) 0 = 0" by simp
    have q: "0 < dp" using False assms(1) by (cases ds) auto
    have r: "drop (nat dp) ds = []" using False by simp
    show ?thesis
      unfolding g p fmtF_def using False q
      by (simp add: min_def r)
  qed
qed

lemma read_format_g:
  assumes ds: "ds \<noteq> []" "list_all decimal_digit ds" "hd ds \<noteq> CHR ''0''" "last ds \<noteq> CHR ''0''"
    and dp: "- 400 < dp" "dp < 400"
  shows "read_decimal (format_g neg ds dp) = Finite neg ds dp"
proof -
  have strip: "strip_zeros (replicate a CHR ''0'' @ ds @ replicate b CHR ''0'') = ds" for a b
    by (rule strip_zeros_padded [OF ds(1,3,4)])
  have lead: "length (takeWhile (\<lambda>x. x = CHR ''0'') (replicate a CHR ''0'' @ ds @ ys)) = a"
    for a ys
    by (rule leading_zeros_padded [OF ds(1,3)])
  have zero: "decimal_digit CHR ''0''" by (simp add: decimal_digit_def)
  have len: "0 < int (length ds)" using ds(1) by simp
  consider (E) "dp - 1 < - 4 \<or> 6 \<le> dp - 1"
    | (F1) "- 4 \<le> dp - 1" "dp - 1 < 6" "dp \<le> 0"
    | (F2) "- 4 \<le> dp - 1" "dp - 1 < 6" "0 < dp" "dp < int (length ds)"
    | (F3) "- 4 \<le> dp - 1" "dp - 1 < 6" "0 < dp" "int (length ds) \<le> dp"
    by linarith
  then show ?thesis
  proof cases
    case E
    have e: "read_exponent (exponent_text (dp - 1)) = dp - 1"
      using dp by (intro read_exponent_text) simp_all
    have a: "[hd ds] @ tl ds = ds" using ds(1) by simp
    have "read_decimal (sign_text neg @ [hd ds] @ (if tl ds = [] then [] else ''.'') @ tl ds
             @ (CHR ''e'' # exponent_text (dp - 1)))
        = Finite neg (strip_zeros ([hd ds] @ tl ds))
           (if strip_zeros ([hd ds] @ tl ds) = [] then 0
            else int (length [hd ds])
                 - int (length (takeWhile (\<lambda>x. x = CHR ''0'') ([hd ds] @ tl ds)))
                 + read_exponent (tl (CHR ''e'' # exponent_text (dp - 1))))"
    proof (rule read_decimal_layout)
      show "list_all decimal_digit [hd ds]" using ds(1,2) by (cases ds) simp_all
      show "list_all decimal_digit (tl ds)" using ds(1,2) by (cases ds) simp_all
    qed simp_all
    also have "\<dots> = Finite neg ds dp"
      unfolding a using strip [of 0 0] lead [of 0 "[]"] ds(1) by (simp add: e)
    finally show ?thesis
      by (simp only: format_g_exponent [OF ds(1) E])
  next
    case F1
    have g: "format_g neg ds dp
        = sign_text neg @ ''0'' @ ''.'' @ (replicate (nat (- dp)) CHR ''0'' @ ds) @ []"
      using format_g_plain [OF ds(1) F1(1,2), of neg] F1(3) len by simp
    have a: "''0'' @ replicate (nat (- dp)) CHR ''0'' @ ds
           = replicate (Suc (nat (- dp))) CHR ''0'' @ ds" by simp
    have "read_decimal (sign_text neg @ ''0'' @ ''.'' @ (replicate (nat (- dp)) CHR ''0'' @ ds) @ [])
        = Finite neg (strip_zeros (''0'' @ replicate (nat (- dp)) CHR ''0'' @ ds))
           (if strip_zeros (''0'' @ replicate (nat (- dp)) CHR ''0'' @ ds) = [] then 0
            else int (length ''0'')
                 - int (length (takeWhile (\<lambda>x. x = CHR ''0'')
                     (''0'' @ replicate (nat (- dp)) CHR ''0'' @ ds)))
                 + read_exponent (tl []))"
    proof (rule read_decimal_layout)
      show "list_all decimal_digit (replicate (nat (- dp)) CHR ''0'' @ ds)"
        using ds(2) zero by (auto simp: list_all_iff)
    qed (simp_all add: zero)
    also have "\<dots> = Finite neg ds dp"
      unfolding a using strip [of "Suc (nat (- dp))" 0] lead [of "Suc (nat (- dp))" "[]"] ds(1) F1(3)
      by (simp add: read_exponent_def)
    finally show ?thesis by (simp only: g)
  next
    case F2
    have g: "format_g neg ds dp
        = sign_text neg @ take (nat dp) ds @ ''.'' @ drop (nat dp) ds @ []"
      using format_g_plain [OF ds(1) F2(1,2), of neg] F2(3,4) by simp
    have "read_decimal (sign_text neg @ take (nat dp) ds @ ''.'' @ drop (nat dp) ds @ [])
        = Finite neg (strip_zeros (take (nat dp) ds @ drop (nat dp) ds))
           (if strip_zeros (take (nat dp) ds @ drop (nat dp) ds) = [] then 0
            else int (length (take (nat dp) ds))
                 - int (length (takeWhile (\<lambda>x. x = CHR ''0'')
                     (take (nat dp) ds @ drop (nat dp) ds)))
                 + read_exponent (tl []))"
    proof (rule read_decimal_layout)
      show "take (nat dp) ds \<noteq> []" using F2(3) ds(1) by simp
      show "list_all decimal_digit (take (nat dp) ds)"
        using ds(2) by (auto simp: list_all_iff dest: in_set_takeD)
      show "list_all decimal_digit (drop (nat dp) ds)"
        using ds(2) by (auto simp: list_all_iff dest: in_set_dropD)
    qed simp_all
    also have "\<dots> = Finite neg ds dp"
      unfolding append_take_drop_id
      using strip [of 0 0] lead [of 0 "[]"] ds(1) F2(3,4)
      by (simp add: read_exponent_def min_def)
    finally show ?thesis by (simp only: g)
  next
    case F3
    have g: "format_g neg ds dp
        = sign_text neg @ (ds @ replicate (nat dp - length ds) CHR ''0'') @ [] @ [] @ []"
      using format_g_plain [OF ds(1) F3(1,2), of neg] F3(3,4) by simp
    have "read_decimal (sign_text neg @ (ds @ replicate (nat dp - length ds) CHR ''0'') @ [] @ [] @ [])
        = Finite neg (strip_zeros ((ds @ replicate (nat dp - length ds) CHR ''0'') @ []))
           (if strip_zeros ((ds @ replicate (nat dp - length ds) CHR ''0'') @ []) = [] then 0
            else int (length (ds @ replicate (nat dp - length ds) CHR ''0''))
                 - int (length (takeWhile (\<lambda>x. x = CHR ''0'')
                     ((ds @ replicate (nat dp - length ds) CHR ''0'') @ [])))
                 + read_exponent (tl []))"
    proof (rule read_decimal_layout)
      show "list_all decimal_digit (ds @ replicate (nat dp - length ds) CHR ''0'')"
        using ds(2) zero by (auto simp: list_all_iff)
    qed (simp_all add: ds(1))
    also have "\<dots> = Finite neg ds dp"
      using strip [of 0 "nat dp - length ds"] lead [of 0 "replicate (nat dp - length ds) CHR ''0''"]
        ds(1) F3(3,4)
      by (simp add: read_exponent_def)
    finally show ?thesis by (simp only: g)
  qed
qed

lemma read_format_zero: "read_decimal (format_g neg [] 0) = Finite neg [] 0"
proof -
  have "read_decimal (sign_text neg @ ''0'' @ [] @ [] @ [])
      = Finite neg (strip_zeros (''0'' @ []))
           (if strip_zeros (''0'' @ []) = [] then 0
            else int (length ''0'')
                 - int (length (takeWhile (\<lambda>x. x = CHR ''0'') (''0'' @ [])))
                 + read_exponent (tl []))"
    by (rule read_decimal_layout) (simp_all add: decimal_digit_def)
  then show ?thesis by (simp add: format_g_zero strip_zeros_def)
qed

lemma read_fmtFloat_v:
  assumes "shortest_decimal x"
  shows "read_decimal (fmtFloat_v x) = x"
proof (cases x)
  case (Finite neg ds dp)
  show ?thesis
  proof (cases "ds = []")
    case True
    then show ?thesis using assms Finite by (simp add: read_format_zero)
  next
    case False
    then show ?thesis using assms Finite by (simp add: read_format_g)
  qed
qed (use assms in simp_all)

subsection \<open>The request that is sent\<close>

text \<open>
  Claim C8, as the code has it.  The arguments of the request are the arguments of the
  job, each printed by \<open>fmt.Sprintf("%v", arg)\<close>, in the same order, whatever the
  remote call answers.  A number is printed in the format \<open>g\<close> from its sign, its
  shortest digits \<open>ds\<close> and its decimal exponent \<open>dp\<close> (the value is
  \<open>0.ds * 10 ^ dp\<close>): when \<open>dp - 1\<close> lies between \<open>-4\<close> and 5 the digits are
  written in plain notation, padded with zeros up to the point; otherwise the first digit
  is followed by the point and the remaining digits, if any, then \<open>e\<close>, the sign of the
  exponent and at least two digits of it.  The sign is kept, also on zero, and the text
  reads back as the same sign, digits and exponent.  A boolean is printed as \<open>true\<close>
  or \<open>false\<close>, a string as itself, and \<open>nil\<close> as the five characters \<open><nil>\<close>,
  not as the empty string.
\<close>

theorem grpc_args_are_sprintf_v:
  "req_Args (snd (GRPC_ExecuteJob call jobData)) = map sprintf_v (Args jobData)
   \<and> sprintf_v (JNumber x) = fmtFloat_v x
   \<and> (shortest_decimal x \<longrightarrow> read_decimal (sprintf_v (JNumber x)) = x)
   \<and> sprintf_v (JNumber (Finite neg [] 0)) = sign_text neg @ ''0''
   \<and> (ds \<noteq> [] \<and> - 4 \<le> dp - 1 \<and> dp - 1 < 6 \<longrightarrow>
        sprintf_v (JNumber (Finite neg ds dp))
        = sign_text neg
          @ (if dp \<le> 0 then ''0''
             else take (nat dp) ds @ replicate (nat dp - length ds) CHR ''0'')
          @ (if dp < int (length ds) then ''.'' else [])
          @ (if dp \<le> 0 then replicate (nat (- dp)) CHR ''0'' @ ds else drop (nat dp) ds))
   \<and> (ds \<noteq> [] \<and> (dp - 1 < - 4 \<or> 6 \<le> dp - 1) \<longrightarrow>
        sprintf_v (JNumber (Finite neg ds dp))
        = sign_text neg @ [hd ds] @ (if tl ds = [] then [] else ''.'') @ tl ds
          @ (CHR ''e'' # exponent_text (dp - 1)))
   \<and> sprintf_v (JBool b) = (if b then ''true'' else ''false'')
   \<and> sprintf_v (JString s) = s
   \<and> sprintf_v JNull = ''<nil>''"
proof -
  have 1: "req_Args (snd (GRPC_ExecuteJob call jobData)) = map sprintf_v (Args jobData)"
    by (cases "call \<lparr>req_Class = Class jobData, req_Jid = JID jobData,
          req_Queue = Queue jobData, req_Args = map sprintf_v (Args jobData),
          req_CreatedAt = CreatedAt jobData, req_EnqueuedAt = EnqueuedAt jobData\<rparr>")
       (simp_all add: GRPC_ExecuteJob_def Let_def)
  have 2: "shortest_decimal x \<longrightarrow> read_decimal (sprintf_v (JNumber x)) = x"
    by (simp add: read_fmtFloat_v)
  have 3: "sprintf_v (JNumber (Finite neg [] 0)) = sign_text neg @ ''0''"
    by (simp add: format_g_zero)
  have 4: "ds \<noteq> [] \<and> - 4 \<le> dp - 1 \<and> dp - 1 < 6 \<longrightarrow>
        sprintf_v (JNumber (Finite neg ds dp))
        = sign_text neg
          @ (if dp \<le> 0 then ''0''
             else take (nat dp) ds @ replicate (nat dp - length ds) CHR ''0'')
          @ (if dp < int (length ds) then ''.'' else [])
          @ (if dp \<le> 0 then replicate (nat (- dp)) CHR ''0'' @ ds else drop (nat dp) ds)"
    using format_g_plain [of ds dp neg] by simp
  have 5: "ds \<noteq> [] \<and> (dp - 1 < - 4 \<or> 6 \<le> dp - 1) \<longrightarrow>
        sprintf_v (JNumber (Finite neg ds dp))
        = sign_text neg @ [hd ds] @ (if tl ds = [] then [] else ''.'') @ tl ds
          @ (CHR ''e'' # exponent_text (dp - 1))"
    using format_g_exponent [of ds dp neg] by simp
  show ?thesis
    using 1 2 3 4 5 by simp
qed

text \<open>
  An instance: the arguments \<open>"User"\<close>, 2, negative zero, zero, 1.5, 1000000, 0.00001
  and \<open>false\<close> are sent as \<open>User\<close>, \<open>2\<close>, \<open>-0\<close>, \<open>0\<close>, \<open>1.5\<close>, \<open>1e+06\<close>,
  \<open>1e-05\<close> and \<open>false\<close>; the texts of 1.5 and of 1000000 read back as the numbers
  they were written from.
\<close>

theorem grpc_args_are_sprintf_v_witness:
  "req_Args (snd (GRPC_ExecuteJob no_reply
      ((example_job ''j1'')
        \<lparr>Args := [JString ''User'', JNumber (Finite False ''2'' 1), JNumber (Finite True [] 0),
                  JNumber (Finite False [] 0), JNumber (Finite False ''15'' 1),
                  JNumber (Finite False ''1'' 7), JNumber (Finite False ''1'' (- 4)),
                  JBool False]\<rparr>)))
   = [''User'', ''2'', ''-0'', ''0'', ''1.5'', ''1e+06'', ''1e-05'', ''false'']
   \<and> shortest_decimal (Finite False ''15'' 1)
   \<and> read_decimal ''1.5'' = Finite False ''15'' 1
   \<and> shortest_decimal (Finite False ''1'' 7)
   \<and> read_decimal ''1e+06'' = Finite False ''1'' 7"
  using grpc_args_are_sprintf_v
    [where call = no_reply
       and jobData = "(example_job ''j1'')
        \<lparr>Args := [JString ''User'', JNumber (Finite False ''2'' 1), JNumber (Finite True [] 0),
                  JNumber (Finite False [] 0), JNumber (Finite False ''15'' 1),
                  JNumber (Finite False ''1'' 7), JNumber (Finite False ''1'' (- 4)),
                  JBool False]\<rparr>"
       and x = "Finite False ''15'' 1" and neg = False and ds = "''15''" and dp = 1
       and b = False and s = "''User''"]
    grpc_args_are_sprintf_v
    [where call = no_reply and jobData = "example_job ''j1''"
       and x = "Finite False ''1'' 7" and neg = False and ds = "''1''" and dp = 7
       and b = False and s = "''User''"]
  by (simp add: example_job_def format_g_def fmtE_def fmtF_def sign_text_def
      exponent_text_def digit_char_def decimal_digit_def Let_def)

text \<open>
  The claim's null clause fails: the job with the arguments \<open>"User"\<close>, \<open>null\<close> and
  \<open>true\<close> is sent with the second argument \<open><nil>\<close>, which is not the empty string.
\<close>

theorem grpc_null_argument_counterexample:
  "req_Args (snd (GRPC_ExecuteJob no_reply
      ((example_job ''j1'') \<lparr>Args := [JString ''User'', JNull, JBool True]\<rparr>)))
   = [''User'', ''<nil>'', ''true'']
   \<and> req_Args (snd (GRPC_ExecuteJob no_reply
      ((example_job ''j1'') \<lparr>Args := [JString ''User'', JNull, JBool True]\<rparr>))) ! 1 \<noteq> []"
  by (simp add: GRPC_ExecuteJob_def no_reply_def example_job_def Let_def)

section \<open>The repository's tests on the model\<close>

text \<open>
  The unit tests of the repository fix what the code does on concrete inputs.  Their
  scenarios give the same results on the model.
\<close>

lemma test_NewSemaphore:
  "Capacity (NewSemaphore 5) = 5 \<and> Capacity (NewSemaphore 0) = 1
   \<and> Capacity (NewSemaphore (- 1)) = 1 \<and> ActiveCount (NewSemaphore 5) = 0"
  by (simp add: NewSemaphore_def Capacity_def ActiveCount_def)

lemma test_Semaphore_Acquire_Release:
  "sem_calls (NewSemaphore 2) [CallAcquire False True]
     = Inr \<lparr>ch = 1, capacity = 2, active = 1, wg = 1\<rparr>
   \<and> sem_calls (NewSemaphore 2) [CallAcquire False True, CallAcquire False True]
     = Inr \<lparr>ch = 2, capacity = 2, active = 2, wg = 2\<rparr>
   \<and> sem_calls (NewSemaphore 2) [CallAcquire False True, CallAcquire False True, CallRelease]
     = Inr \<lparr>ch = 1, capacity = 2, active = 1, wg = 1\<rparr>
   \<and> sem_calls (NewSemaphore 2)
        [CallAcquire False True, CallAcquire False True, CallRelease, CallRelease]
     = Inr \<lparr>ch = 0, capacity = 2, active = 0, wg = 0\<rparr>"
  by (simp add: NewSemaphore_def Acquire_def Release_def can_send_def take_token_def)

lemma test_Semaphore_TryAcquire:
  "fst (TryAcquire (NewSemaphore 1)) = True
   \<and> fst (TryAcquire (snd (TryAcquire (NewSemaphore 1)))) = False
   \<and> Release (snd (TryAcquire (NewSemaphore 1))) = Inr (NewSemaphore 1)"
  by (simp add: NewSemaphore_def TryAcquire_def Release_def can_send_def take_token_def)

lemma test_Semaphore_AcquireWithCancelledContext:
  "fst (Acquire True pick_send (snd (Acquire False True (NewSemaphore 1)))) = Some False"
  by (simp add: NewSemaphore_def Acquire_def can_send_def take_token_def)

lemma test_CircuitBreaker_OpensAfterMaxFailures:
  "GetState (record_failures [t1] (NewCircuitBreaker 2 (10 * Second))) = StateClosed
   \<and> GetState (record_failures [t1, t2] (NewCircuitBreaker 2 (10 * Second))) = StateOpen
   \<and> fst (AllowRequest t2 (record_failures [t1, t2] (NewCircuitBreaker 2 (10 * Second))))
       = False"
  by (simp add: NewCircuitBreaker_def RecordFailure_def AllowRequest_def GetState_def
      time_Since_def Second_def Let_def)

lemma test_CircuitBreaker_HalfOpenAfterTimeout:
  "GetState (RecordFailure 0 (NewCircuitBreaker 1 (100 * Millisecond))) = StateOpen
   \<and> fst (AllowRequest (150 * Millisecond)
           (RecordFailure 0 (NewCircuitBreaker 1 (100 * Millisecond)))) = True
   \<and> GetState (snd (AllowRequest (150 * Millisecond)
           (RecordFailure 0 (NewCircuitBreaker 1 (100 * Millisecond))))) = StateHalfOpen
   \<and> GetState (RecordSuccess (snd (AllowRequest (150 * Millisecond)
           (RecordFailure 0 (NewCircuitBreaker 1 (100 * Millisecond)))))) = StateClosed"
  by (simp add: NewCircuitBreaker_def RecordFailure_def RecordSuccess_def AllowRequest_def
      GetState_def time_Since_def Millisecond_def Let_def)

lemma test_HTTPClient_ServerError_WithRetry:
  "executeWithRetry (\<lambda>i. if i < 2 then Response 500 ''Internal Server Error''
                          else Response 200 ''ok'')
       (\<lambda>body r. Some (r\<lparr>Status := ''success''\<rparr>)) (Some empty_JobResult) 3
     = (None, Some (empty_JobResult\<lparr>Status := ''success''\<rparr>),
        [Send 0, Sleep (100 * Millisecond), Send 1, Sleep (400 * Millisecond), Send 2])"
  by (simp add: executeWithRetry_def executeWithRetry_from.simps)

lemma test_HTTPClient_MaxRetriesExceeded:
  "length (filter (\<lambda>ev. case ev of Send i \<Rightarrow> True | Sleep d \<Rightarrow> False)
       (snd (snd (executeWithRetry (\<lambda>i. Response 500 ''Internal Server Error'')
          (\<lambda>body r. None) (Some empty_JobResult) 3)))) = 4
   \<and> fst (executeWithRetry (\<lambda>i. Response 500 ''Internal Server Error'')
          (\<lambda>body r. None) (Some empty_JobResult) 3)
       = Some (RequestFailedAfter 4 (ServerError 4 500 ''Internal Server Error''))"
  by (simp add: executeWithRetry_def executeWithRetry_from.simps)

lemma test_HTTPClient_ClientError_NoRetry:
  "executeWithRetry (\<lambda>i. Response 400 ''Bad Request'') (\<lambda>body r. None)
       (Some empty_JobResult) 3
     = (Some (ClientError 400 ''Bad Request''), Some empty_JobResult, [Send 0])"
  by (simp add: executeWithRetry_def executeWithRetry_from.simps)

lemma test_ProcessJobAfterShutdown:
  "fst (ProcessJob pick_send job
          (fst (snd (Shutdown (1 * Second) True (NewConcurrentProcessor 2)))))
     = SubmitReturned (Some ErrShuttingDown)
   \<and> ActiveJobs (fst (snd (Shutdown (1 * Second) True (NewConcurrentProcessor 2)))) = 0
   \<and> \<not> IsRunning (fst (snd (Shutdown (1 * Second) True (NewConcurrentProcessor 2))))"
  by (simp add: ProcessJob_def Shutdown_def NewConcurrentProcessor_def NewSemaphore_def
      ActiveJobs_def ActiveCount_def IsRunning_def Let_def)

lemma test_EnqueueRetry:
  "fst (snd (EnqueueRetry marshal ta tb ((example_job ''test-jid-123'')\<lparr>Retry := 0\<rparr>)
          (30 * Second) c))
     = (example_job ''test-jid-123'')\<lparr>FailedAt := float64 (Unix ta), Retry := 1\<rparr>"
  by (simp add: EnqueueRetry_def Let_def example_job_def split: option.splits prod.splits)


end
